theory Spec2Isabelle
  imports Main
begin

section \<open>Strings and character classes\<close>

text \<open>
  \<^verbatim>\<open>upload_icons.py\<close> downloads icons from the LaMetric catalogue and uploads them
  to an AWTRIX device. Its pure parts are the address validator and the icon-name
  sanitizer; the rest is two HTTP calls per icon and the command-line driver.

  A Python \<^verbatim>\<open>str\<close> is modelled as a HOL \<open>string\<close>: a list of characters
  with code points 0 to 255. Within that range the regular-expression class
  \<^verbatim>\<open>\d\<close> is exactly \<^verbatim>\<open>0-9\<close>. A \<^verbatim>\<open>bytes\<close> value is a list of octets,
  also a \<open>char list\<close>.
\<close>

type_synonym bytes = "char list"

definition in_range :: "char \<Rightarrow> char \<Rightarrow> char \<Rightarrow> bool" where
  \<comment> \<open>a range \<^verbatim>\<open>lo-hi\<close> of a character class, by code point\<close>
  "in_range lo hi c = ((of_char lo :: nat) \<le> of_char c \<and> (of_char c :: nat) \<le> of_char hi)"

definition is_digit :: "char \<Rightarrow> bool" where
  \<comment> \<open>\<^verbatim>\<open>\d\<close> and \<^verbatim>\<open>[0-9]\<close>\<close>
  "is_digit c = in_range CHR ''0'' CHR ''9'' c"

definition is_alnum :: "char \<Rightarrow> bool" where
  \<comment> \<open>\<^verbatim>\<open>[a-zA-Z0-9]\<close>\<close>
  "is_alnum c =
     (in_range CHR ''a'' CHR ''z'' c \<or> in_range CHR ''A'' CHR ''Z'' c \<or> in_range CHR ''0'' CHR ''9'' c)"

definition is_alnum_hyphen :: "char \<Rightarrow> bool" where
  \<comment> \<open>\<^verbatim>\<open>[a-zA-Z0-9\-]\<close>\<close>
  "is_alnum_hyphen c = (is_alnum c \<or> c = CHR ''-'')"

definition safe_char :: "char \<Rightarrow> bool" where
  \<comment> \<open>\<^verbatim>\<open>[a-zA-Z0-9\-_]\<close>, the class that \<^verbatim>\<open>sanitize_icon_name\<close> negates\<close>
  "safe_char c = (is_alnum c \<or> c = CHR ''-'' \<or> c = CHR ''_'')"

section \<open>The name sanitizer\<close>

definition re_sub_char :: "(char \<Rightarrow> bool) \<Rightarrow> string \<Rightarrow> string \<Rightarrow> string" where
  \<comment> \<open>\<^verbatim>\<open>re.sub(pattern, repl, s)\<close> for a pattern that is one character class:
      every matching character is replaced by \<open>repl\<close>, every other one is kept\<close>
  "re_sub_char matches repl s = concat (map (\<lambda>c. if matches c then repl else [c]) s)"

definition py_strip :: "string \<Rightarrow> string \<Rightarrow> string" where
  \<comment> \<open>\<^verbatim>\<open>s.strip(chars)\<close>: drops the characters of \<open>chars\<close> from both ends\<close>
  "py_strip chars s =
     rev (dropWhile (\<lambda>c. c \<in> set chars) (rev (dropWhile (\<lambda>c. c \<in> set chars) s)))"

definition sanitize_icon_name :: "string \<Rightarrow> string" where
  "sanitize_icon_name name =
     (let sanitized = re_sub_char (\<lambda>c. \<not> safe_char c) ''_'' name;
          sanitized = py_strip ''_'' sanitized
      in if sanitized \<noteq> [] then sanitized else ''icon'')"

subsection \<open>The sanitizer as the specification words it\<close>

definition allowed_chars :: string where
  "allowed_chars = ''ABCDEFGHIJKLMNOPQRSTUVWXYZabcdefghijklmnopqrstuvwxyz0123456789-_''"

definition fallback_token :: string where
  "fallback_token = ''icon''"

fun replace_unsafe :: "string \<Rightarrow> string" where
  "replace_unsafe [] = []"
| "replace_unsafe (c # cs) =
     (if c \<in> set allowed_chars then c else CHR ''_'') # replace_unsafe cs"

fun strip_leading_underscores :: "string \<Rightarrow> string" where
  "strip_leading_underscores [] = []"
| "strip_leading_underscores (c # cs) =
     (if c = CHR ''_'' then strip_leading_underscores cs else c # cs)"

fun strip_trailing_underscores :: "string \<Rightarrow> string" where
  "strip_trailing_underscores [] = []"
| "strip_trailing_underscores (c # cs) =
     (let r = strip_trailing_underscores cs
      in if c = CHR ''_'' \<and> r = [] then [] else c # r)"

definition sanitize_reference :: "string \<Rightarrow> string" where
  "sanitize_reference s =
     (let t = strip_trailing_underscores (strip_leading_underscores (replace_unsafe s))
      in if t = [] then fallback_token else t)"

datatype rexp =
    Cls "char \<Rightarrow> bool"
  | Seq rexp rexp
  | Opt rexp
  | Rep nat nat rexp
  | Star rexp

fun rep_match :: "(string \<Rightarrow> string list) \<Rightarrow> nat \<Rightarrow> nat \<Rightarrow> string \<Rightarrow> string list" where
  "rep_match m lo 0 s = (if lo = 0 then [s] else [])"
| "rep_match m lo (Suc hi) s =
     concat (map (rep_match m (lo - 1) hi) (m s)) @ (if lo = 0 then [s] else [])"

fun rmatch :: "rexp \<Rightarrow> string \<Rightarrow> string list" where
  "rmatch (Cls P) s = (case s of [] \<Rightarrow> [] | c # cs \<Rightarrow> if P c then [cs] else [])"
| "rmatch (Seq r1 r2) s = concat (map (rmatch r2) (rmatch r1 s))"
| "rmatch (Opt r) s = rmatch r s @ [s]"
| "rmatch (Rep lo hi r) s = rep_match (rmatch r) lo hi s"
| "rmatch (Star r) s = rep_match (rmatch r) 0 (length s) s"

definition at_dollar :: "string \<Rightarrow> bool" where
  "at_dollar rest = (rest = [] \<or> rest = [CHR 0x0A])"

definition re_match :: "rexp list \<Rightarrow> string \<Rightarrow> bool" where
  "re_match alternatives s = list_ex (\<lambda>r. list_ex at_dollar (rmatch r s)) alternatives"

definition dot :: rexp where
  "dot = Cls (\<lambda>c. c = CHR ''.'')"

definition digits_1_3 :: rexp where
  "digits_1_3 = Rep 1 3 (Cls is_digit)"

definition ipv4_pattern :: "rexp list" where
  "ipv4_pattern = [Seq (Rep 3 3 (Seq digits_1_3 dot)) digits_1_3]"

definition label :: rexp where
  "label = Seq (Cls is_alnum) (Opt (Seq (Rep 0 61 (Cls is_alnum_hyphen)) (Cls is_alnum)))"

definition hostname_pattern :: "rexp list" where
  "hostname_pattern = [Seq label (Star (Seq dot label)), Cls is_alnum]"

fun py_split :: "char \<Rightarrow> string \<Rightarrow> string list" where
  "py_split sep [] = [[]]"
| "py_split sep (c # cs) =
     (if c = sep then [] # py_split sep cs
      else (case py_split sep cs of g # gs \<Rightarrow> (c # g) # gs | [] \<Rightarrow> [[c]]))"

definition int_space :: "char \<Rightarrow> bool" where
  "int_space c = (in_range (CHR 0x09) (CHR 0x0D) c \<or> c = CHR '' '' \<or> c = CHR 0x85 \<or> c = CHR 0xA0)"

definition decimal_value :: "string \<Rightarrow> int" where
  "decimal_value ds = foldl (\<lambda>a c. 10 * a + (int (of_char c) - 48)) 0 ds"

definition int_max_str_digits :: nat where
  \<comment> \<open>\<^verbatim>\<open>sys.int_info.default_max_str_digits\<close>: a longer decimal string makes
      \<^verbatim>\<open>int\<close> raise \<^verbatim>\<open>ValueError\<close>\<close>
  "int_max_str_digits = 4300"

definition py_int :: "string \<Rightarrow> int option" where
  \<comment> \<open>\<^verbatim>\<open>int(s)\<close>; \<open>None\<close> is \<^verbatim>\<open>ValueError\<close>\<close>
  "py_int s =
     (let t = rev (dropWhile int_space (rev (dropWhile int_space s)));
          (negative, digits) =
             (case t of
                [] \<Rightarrow> (False, [])
              | c # cs \<Rightarrow> if c = CHR ''-'' then (True, cs)
                          else if c = CHR ''+'' then (False, cs) else (False, t));
          groups = py_split CHR ''_'' digits
      in if list_all (\<lambda>g. g \<noteq> [] \<and> list_all is_digit g) groups
            \<and> length (concat groups) \<le> int_max_str_digits
         then Some ((if negative then - 1 else 1) * decimal_value (concat groups))
         else None)"

fun octets_in_range :: "string list \<Rightarrow> bool option" where
  "octets_in_range [] = Some True"
| "octets_in_range (octet # octets) =
     (case py_int octet of
        None \<Rightarrow> None
      | Some n \<Rightarrow> if 0 \<le> n \<and> n \<le> 255 then octets_in_range octets else Some False)"

definition validate_ip_or_hostname :: "string \<Rightarrow> bool" where
  "validate_ip_or_hostname address =
     (if address = [] then False
      else if address \<in> set [''localhost'', ''127.0.0.1''] then True
      else if re_match ipv4_pattern address then
        (case octets_in_range (py_split CHR ''.'' address) of
           Some b \<Rightarrow> b
         | None \<Rightarrow> False)
      else re_match hostname_pattern address)"

fun pow :: "string set \<Rightarrow> nat \<Rightarrow> string set" where
  "pow L 0 = {[]}"
| "pow L (Suc n) = {u @ v | u v. u \<in> L \<and> v \<in> pow L n}"

fun lang :: "rexp \<Rightarrow> string set" where
  "lang (Cls P) = {[c] | c. P c}"
| "lang (Seq r1 r2) = {u @ v | u v. u \<in> lang r1 \<and> v \<in> lang r2}"
| "lang (Opt r) = insert [] (lang r)"
| "lang (Rep lo hi r) = (\<Union>k \<in> {lo..hi}. pow (lang r) k)"
| "lang (Star r) = (\<Union>k. pow (lang r) k)"

fun join_dot :: "string list \<Rightarrow> string" where
  "join_dot [] = []"
| "join_dot [g] = g"
| "join_dot (g # h # gs) = g @ ''.'' @ join_dot (h # gs)"

definition octet_in_range :: "string \<Rightarrow> bool" where
  "octet_in_range g = (0 \<le> decimal_value g \<and> decimal_value g \<le> 255)"

definition digit_group :: "string \<Rightarrow> bool" where
  "digit_group g = (1 \<le> length g \<and> length g \<le> 3 \<and> list_all is_digit g)"

definition dotted_quad :: "string \<Rightarrow> bool" where
  "dotted_quad s = (let gs = py_split CHR ''.'' s in length gs = 4 \<and> list_all digit_group gs)"

definition four_decimal_groups :: "string \<Rightarrow> bool" where
  "four_decimal_groups s =
     (let gs = py_split CHR ''.'' s in length gs = 4 \<and> list_all (\<lambda>g. g \<noteq> [] \<and> list_all is_digit g) gs)"

definition is_label :: "string \<Rightarrow> bool" where
  "is_label l = (1 \<le> length l \<and> length l \<le> 63 \<and> list_all is_alnum_hyphen l
                 \<and> is_alnum (hd l) \<and> is_alnum (last l))"

definition hostname_grammar :: "string \<Rightarrow> bool" where
  "hostname_grammar s = list_all is_label (py_split CHR ''.'' s)"

section \<open>The network, the console and exceptions\<close>

text \<open>
  The script talks to the outside through \<^verbatim>\<open>urllib.request.urlopen\<close>,
  \<^verbatim>\<open>uuid.uuid4\<close>, \<^verbatim>\<open>input\<close> and \<^verbatim>\<open>print\<close>. The outside is a state of an
  arbitrary type \<open>'w\<close>, threaded through every call; what the outside answers is given
  by the functions of an environment record. Printed lines are collected as a list of
  messages, one constructor for each \<^verbatim>\<open>print\<close> statement of the script.

  \<^verbatim>\<open>urlopen\<close>, together with the \<^verbatim>\<open>read\<close> of the response where the script
  reads it, either yields a response or raises an exception. The exceptions are those the
  script tells apart: \<^verbatim>\<open>HTTPError\<close> (a subclass of \<^verbatim>\<open>URLError\<close>) for an HTTP error
  status, \<^verbatim>\<open>URLError\<close> (a subclass of \<^verbatim>\<open>OSError\<close>) for a failed connection, another
  \<^verbatim>\<open>OSError\<close> such as a timeout while reading, \<^verbatim>\<open>ValueError\<close> (which
  \<^verbatim>\<open>UnicodeError\<close> is a subclass of), and \<^verbatim>\<open>HTTPException\<close> of
  \<^verbatim>\<open>http.client\<close>, which is none of the former: \<^verbatim>\<open>InvalidURL\<close> for a control
  character or a non-numeric port in the address, \<^verbatim>\<open>BadStatusLine\<close> for an answer that is
  not HTTP, \<^verbatim>\<open>IncompleteRead\<close> for a body cut short. \<^verbatim>\<open>EOFError\<close> is what
  \<^verbatim>\<open>input\<close> raises at the end of the input.
\<close>

datatype exn = HTTPError nat | URLError | OSError | HTTPException | ValueError string | EOFError

fun is_HTTPError :: "exn \<Rightarrow> bool" where
  "is_HTTPError (HTTPError code) = True"
| "is_HTTPError e = False"

fun is_URLError :: "exn \<Rightarrow> bool" where
  "is_URLError (HTTPError code) = True"
| "is_URLError URLError = True"
| "is_URLError e = False"

fun is_OSError :: "exn \<Rightarrow> bool" where
  "is_OSError (HTTPError code) = True"
| "is_OSError URLError = True"
| "is_OSError OSError = True"
| "is_OSError e = False"

fun is_ValueError :: "exn \<Rightarrow> bool" where
  "is_ValueError (ValueError m) = True"
| "is_ValueError e = False"

record request =
  req_url :: string
  req_data :: "bytes option"
  req_headers :: "(string \<times> string) list"

record response =
  resp_status :: nat
  resp_body :: bytes

datatype msg =
    Downloaded int string
  | Uploaded string string
  | UploadFailedStatus nat
  | UploadFailed exn
  | Processing string int
  | ErrorMsg exn
  | ListDefault "(string \<times> int) list"
  | Prompt
  | NoAddress
  | InvalidAddress string
  | InvalidIconId string
  | NoIcons
  | Uploading nat string
  | Summary nat nat

record 'w env =
  urlopen :: "request \<Rightarrow> nat \<Rightarrow> 'w \<Rightarrow> (exn + response) \<times> 'w"
  uuid4_hex :: "'w \<Rightarrow> string \<times> 'w"
  input_line :: "'w \<Rightarrow> string option \<times> 'w"

definition get_method :: "request \<Rightarrow> string" where
  \<comment> \<open>\<^verbatim>\<open>Request.get_method\<close> of \<^verbatim>\<open>urllib\<close>: a request with data is a POST\<close>
  "get_method req = (if req_data req = None then ''GET'' else ''POST'')"


definition REQUEST_TIMEOUT :: nat where
  "REQUEST_TIMEOUT = 10"

subsection \<open>Formatting\<close>

definition digit_char :: "nat \<Rightarrow> char" where
  "digit_char d = ''0123456789'' ! d"

fun str_nat :: "nat \<Rightarrow> string" where
  "str_nat n = (if n < 10 then [digit_char n] else str_nat (n div 10) @ [digit_char (n mod 10)])"

declare str_nat.simps [simp del]

definition str_int :: "int \<Rightarrow> string" where
  \<comment> \<open>\<^verbatim>\<open>str(n)\<close> and \<^verbatim>\<open>f"{n}"\<close> for an integer\<close>
  "str_int n = (if n < 0 then CHR ''-'' # str_nat (nat (- n)) else str_nat (nat n))"

definition utf8_char :: "char \<Rightarrow> bytes" where
  "utf8_char c =
     (let n = (of_char c :: nat)
      in if n < 128 then [c] else [char_of (192 + n div 64), char_of (128 + n mod 64)])"

definition encode :: "string \<Rightarrow> bytes" where
  \<comment> \<open>\<^verbatim>\<open>s.encode()\<close>: UTF-8\<close>
  "encode s = concat (map utf8_char s)"

fun join_bytes :: "bytes \<Rightarrow> bytes list \<Rightarrow> bytes" where
  \<comment> \<open>\<^verbatim>\<open>sep.join(items)\<close>\<close>
  "join_bytes sep [] = []"
| "join_bytes sep [x] = x"
| "join_bytes sep (x # y # ys) = x @ sep @ join_bytes sep (y # ys)"

definition CRLF :: bytes where
  "CRLF = [CHR 0x0D, CHR 0x0A]"

section \<open>Downloading an icon\<close>

definition icon_url :: "int \<Rightarrow> string \<Rightarrow> string" where
  "icon_url icon_id ext =
     ''https://developer.lametric.com/content/apps/icon_thumbs/'' @ str_int icon_id @ ''.'' @ ext"

definition get_request :: "string \<Rightarrow> request" where
  "get_request u = \<lparr>req_url = u, req_data = None, req_headers = []\<rparr>"

definition not_found :: "int \<Rightarrow> exn" where
  "not_found icon_id =
     ValueError (''Could not download icon '' @ str_int icon_id @ '' - icon not found or server error'')"

fun download_formats ::
  "'w env \<Rightarrow> int \<Rightarrow> string list \<Rightarrow> 'w \<Rightarrow> (exn + bytes \<times> string) \<times> msg list \<times> 'w" where
  "download_formats env icon_id [] w = (Inl (not_found icon_id), [], w)"
| "download_formats env icon_id (ext # exts) w =
     (case urlopen env (get_request (icon_url icon_id ext)) REQUEST_TIMEOUT w of
        (Inr response, w') \<Rightarrow>
          if resp_body response \<noteq> []
          then (Inr (resp_body response, ext), [Downloaded icon_id ext], w')
          else download_formats env icon_id exts w'
      | (Inl e, w') \<Rightarrow>
          if is_HTTPError e then download_formats env icon_id exts w'
          else (Inl e, [], w'))"

definition download_icon ::
  "'w env \<Rightarrow> int \<Rightarrow> 'w \<Rightarrow> (exn + bytes \<times> string) \<times> msg list \<times> 'w" where
  "download_icon env icon_id w = download_formats env icon_id [''gif'', ''png''] w"

section \<open>Uploading an icon\<close>

definition upload_request :: "string \<Rightarrow> string \<Rightarrow> string \<Rightarrow> bytes \<Rightarrow> string \<Rightarrow> request" where
  \<open>upload_request hex device_ip icon_name icon_data file_ext =
     (let safe_icon_name = sanitize_icon_name icon_name;
          u = ''http://'' @ device_ip @ ''/edit'';
          boundary = ''----WebKitFormBoundary'' @ hex;
          body =
            [encode (''--'' @ boundary),
             encode (''Content-Disposition: form-data; name="data"; filename="/ICONS/''
                       @ safe_icon_name @ ''.'' @ file_ext @ ''"''),
             encode (''Content-Type: image/'' @ file_ext),
             [],
             icon_data,
             encode (''--'' @ boundary @ ''--''),
             []];
          body_bytes = join_bytes CRLF body
      in \<lparr>req_url = u, req_data = Some body_bytes,
          req_headers =
            [(''Content-Type'', ''multipart/form-data; boundary='' @ boundary),
             (''Content-Length'', str_int (int (length body_bytes)))]\<rparr>)\<close>

definition upload_icon_to_awtrix ::
  "'w env \<Rightarrow> string \<Rightarrow> string \<Rightarrow> bytes \<Rightarrow> string \<Rightarrow> 'w \<Rightarrow> (exn + bool) \<times> msg list \<times> 'w" where
  "upload_icon_to_awtrix env device_ip icon_name icon_data file_ext w =
     (case uuid4_hex env w of
        (hex, w1) \<Rightarrow>
          (case urlopen env (upload_request hex device_ip icon_name icon_data file_ext)
                  REQUEST_TIMEOUT w1 of
             (Inr response, w2) \<Rightarrow>
               if resp_status response \<in> set [200, 201]
               then (Inr True, [Uploaded (sanitize_icon_name icon_name) file_ext], w2)
               else (Inr False, [UploadFailedStatus (resp_status response)], w2)
           | (Inl e, w2) \<Rightarrow>
               if is_URLError e \<or> is_OSError e
               then (Inr False, [UploadFailed e], w2)
               else (Inl e, [], w2)))"

section \<open>Processing one icon and the command line\<close>

definition process_icon ::
  "'w env \<Rightarrow> string \<Rightarrow> string \<Rightarrow> int \<Rightarrow> 'w \<Rightarrow> (exn + bool) \<times> msg list \<times> 'w" where
  "process_icon env device_ip icon_name icon_id w =
     (case download_icon env icon_id w of
        (r, l1, w1) \<Rightarrow>
          (case (case r of
                   Inr (icon_data, file_ext) \<Rightarrow>
                     upload_icon_to_awtrix env device_ip icon_name icon_data file_ext w1
                 | Inl e \<Rightarrow> (Inl e, [], w1)) of
             (Inr b, l2, w2) \<Rightarrow> (Inr b, Processing icon_name icon_id # l1 @ l2, w2)
           | (Inl e, l2, w2) \<Rightarrow>
               if is_URLError e \<or> is_OSError e \<or> is_ValueError e
               then (Inr False, Processing icon_name icon_id # l1 @ l2 @ [ErrorMsg e], w2)
               else (Inl e, Processing icon_name icon_id # l1 @ l2, w2)))"

record args =
  arg_device_ip :: "string option"
  arg_default_icons :: bool
  arg_icon :: "(string \<times> string) list"
  arg_list_default :: bool

definition py_isspace :: "char \<Rightarrow> bool" where
  \<comment> \<open>\<^verbatim>\<open>str.isspace\<close> on the code points 0 to 255\<close>
  "py_isspace c =
     (in_range (CHR 0x09) (CHR 0x0D) c \<or> in_range (CHR 0x1C) (CHR 0x20) c
      \<or> c = CHR 0x85 \<or> c = CHR 0xA0)"

definition py_strip_ws :: "string \<Rightarrow> string" where
  \<comment> \<open>\<^verbatim>\<open>s.strip()\<close>\<close>
  "py_strip_ws s = rev (dropWhile py_isspace (rev (dropWhile py_isspace s)))"



definition resolve_device_ip ::
  "'w env \<Rightarrow> args \<Rightarrow> 'w \<Rightarrow> ((exn + int) + string) \<times> msg list \<times> 'w" where
  \<comment> \<open>lines 236 to 243: the address argument, or the prompt when it is missing or empty\<close>
  "resolve_device_ip env a w =
     (if arg_device_ip a = None \<or> arg_device_ip a = Some []
      then (case input_line env w of
              (None, w') \<Rightarrow> (Inl (Inl EOFError), [Prompt], w')
            | (Some line, w') \<Rightarrow>
                (let device_ip = py_strip_ws line
                 in if device_ip = [] then (Inl (Inr 1), [Prompt, NoAddress], w')
                    else (Inr device_ip, [Prompt], w')))
      else (Inr (the (arg_device_ip a)), [], w))"



fun process_loop ::
  "'w env \<Rightarrow> string \<Rightarrow> (string \<times> int) list \<Rightarrow> nat \<Rightarrow> 'w \<Rightarrow> (exn + nat) \<times> msg list \<times> 'w" where
  \<comment> \<open>lines 279 to 282: the loop over \<^verbatim>\<open>icons_to_upload.items()\<close>\<close>
  "process_loop env device_ip [] success_count w = (Inr success_count, [], w)"
| "process_loop env device_ip ((icon_name, icon_id) # rest) success_count w =
     (case process_icon env device_ip icon_name icon_id w of
        (Inl e, l, w') \<Rightarrow> (Inl e, l, w')
      | (Inr b, l, w') \<Rightarrow>
          (case process_loop env device_ip rest (if b then success_count + 1 else success_count) w' of
             (r, l', w'') \<Rightarrow> (r, l @ l', w'')))"



section \<open>The operations as the specification words them\<close>

subsection \<open>The fetch decision table\<close>

datatype attempt = Hit bytes | Miss | Fatal exn

definition classify :: "exn + response \<Rightarrow> attempt" where
  \<comment> \<open>an HTTP error status is a miss, another transport error is fatal, a response is a hit
      when it has a body\<close>
  "classify r =
     (case r of
        Inr response \<Rightarrow> if resp_body response = [] then Miss else Hit (resp_body response)
      | Inl (HTTPError code) \<Rightarrow> Miss
      | Inl e \<Rightarrow> Fatal e)"

definition fetch :: "'w env \<Rightarrow> int \<Rightarrow> 'w \<Rightarrow> (exn + bytes \<times> string) \<times> 'w" where
  "fetch env catalogId w =
     (case urlopen env (get_request (icon_url catalogId ''gif'')) REQUEST_TIMEOUT w of
        (r1, w1) \<Rightarrow>
          (case classify r1 of
             Hit b \<Rightarrow> (Inr (b, ''gif''), w1)
           | Fatal e \<Rightarrow> (Inl e, w1)
           | Miss \<Rightarrow>
               (case urlopen env (get_request (icon_url catalogId ''png'')) REQUEST_TIMEOUT w1 of
                  (r2, w2) \<Rightarrow>
                    (case classify r2 of
                       Hit b \<Rightarrow> (Inr (b, ''png''), w2)
                     | Fatal e \<Rightarrow> (Inl e, w2)
                     | Miss \<Rightarrow> (Inl (not_found catalogId), w2)))))"

subsection \<open>The multipart body\<close>

record part =
  part_name :: string
  part_filename :: string
  part_content_type :: string
  part_content :: bytes

definition render_part :: "string \<Rightarrow> part \<Rightarrow> bytes" where
  \<open>render_part boundary p =
     encode (''--'' @ boundary) @ CRLF
     @ encode (''Content-Disposition: form-data; name="'' @ part_name p
                 @ ''"; filename="'' @ part_filename p @ ''"'') @ CRLF
     @ encode (''Content-Type: '' @ part_content_type p) @ CRLF
     @ CRLF
     @ part_content p @ CRLF\<close>

definition render_multipart :: "string \<Rightarrow> part list \<Rightarrow> bytes" where
  "render_multipart boundary parts =
     concat (map (render_part boundary) parts) @ encode (''--'' @ boundary @ ''--'') @ CRLF"

subsection \<open>What the device answers to an upload\<close>

definition device_answer ::
  "'w env \<Rightarrow> string \<Rightarrow> string \<Rightarrow> bytes \<Rightarrow> string \<Rightarrow> 'w \<Rightarrow> exn + response" where
  \<comment> \<open>the outcome of the one \<^verbatim>\<open>urlopen\<close> call of \<^verbatim>\<open>upload_icon_to_awtrix\<close>\<close>
  "device_answer env device_ip icon_name icon_data file_ext w =
     fst (urlopen env
            (upload_request (fst (uuid4_hex env w)) device_ip icon_name icon_data file_ext)
            REQUEST_TIMEOUT (snd (uuid4_hex env w)))"

fun is_diagnostic :: "msg \<Rightarrow> bool" where
  "is_diagnostic (UploadFailedStatus s) = True"
| "is_diagnostic (UploadFailed e) = True"
| "is_diagnostic m = False"

subsection \<open>The pipeline\<close>

fun process_all ::
  "'w env \<Rightarrow> string \<Rightarrow> (string \<times> int) list \<Rightarrow> 'w \<Rightarrow> (string \<times> bool) list \<times> msg list \<times> 'w" where
  \<comment> \<open>one result (name, success) for each request, in the order of the requests; a
      failure is recorded and the next request is processed\<close>
  "process_all env device_ip [] w = ([], [], w)"
| "process_all env device_ip ((name, catalogId) # requests) w =
     (case process_icon env device_ip name catalogId w of
        (r, l, w') \<Rightarrow>
          (case process_all env device_ip requests w' of
             (results, l', w'') \<Rightarrow>
               ((name, (case r of Inr b \<Rightarrow> b | Inl e \<Rightarrow> False)) # results, l @ l', w'')))"

fun is_Processing :: "msg \<Rightarrow> bool" where
  "is_Processing (Processing name catalogId) = True"
| "is_Processing m = False"

subsection \<open>Fatal input errors\<close>




section \<open>A test double for the network\<close>

text \<open>
  The state of this environment is the list of the requests made so far. The catalogue
  has icon 1 and icon 3 as GIF, icon 4 as PNG only, icon 5 with empty bodies, breaks off
  in the middle of the GIF of icon 6 (\<^verbatim>\<open>IncompleteRead\<close>), and answers 404 for every
  other icon. The device at \<^verbatim>\<open>awtrix.local\<close> accepts every upload with status 200, the
  device at \<^verbatim>\<open>quiet.local\<close> answers with status 204, the device at
  \<^verbatim>\<open>broken.local\<close> with status 500, and what answers at \<^verbatim>\<open>garbled.local\<close> does
  not speak HTTP (\<^verbatim>\<open>BadStatusLine\<close>). The address \<^verbatim>\<open>awtrix.local\<close> followed by a
  line feed is refused before any connection is made (\<^verbatim>\<open>InvalidURL\<close>), and no other
  device is reachable.
\<close>

definition catalogue :: "string \<Rightarrow> exn + response" where
  "catalogue u =
     (if u = icon_url 1 ''gif'' then Inr \<lparr>resp_status = 200, resp_body = ''GIF89a-1''\<rparr>
      else if u = icon_url 3 ''gif'' then Inr \<lparr>resp_status = 200, resp_body = ''GIF89a-3''\<rparr>
      else if u = icon_url 4 ''png'' then Inr \<lparr>resp_status = 200, resp_body = ''PNG-4''\<rparr>
      else if u = icon_url 5 ''gif'' \<or> u = icon_url 5 ''png''
        then Inr \<lparr>resp_status = 200, resp_body = []\<rparr>
      else if u = icon_url 6 ''gif'' then Inl HTTPException
      else Inl (HTTPError 404))"

definition device :: "string \<Rightarrow> exn + response" where
  "device u =
     (if u = ''http://awtrix.local/edit'' then Inr \<lparr>resp_status = 200, resp_body = ''OK''\<rparr>
      else if u = ''http://quiet.local/edit'' then Inr \<lparr>resp_status = 204, resp_body = []\<rparr>
      else if u = ''http://broken.local/edit'' then Inl (HTTPError 500)
      else if u = ''http://garbled.local/edit'' then Inl HTTPException
      else if u = ''http://awtrix.local'' @ [CHR 0x0A] @ ''/edit'' then Inl HTTPException
      else Inl URLError)"

definition test_env :: "(request list) env" where
  "test_env =
     \<lparr>urlopen = (\<lambda>req t w.
         ((if req_data req = None then catalogue (req_url req) else device (req_url req)),
          w @ [req])),
      uuid4_hex = (\<lambda>w. (''0123456789abcdef0123456789abcdef'', w)),
      input_line = (\<lambda>w. (None, w))\<rparr>"




section \<open>Properties of the sanitizer\<close>

lemma char_eq_code: "(c = d) = ((of_char c :: nat) = of_char d)"
  by (simp add: of_char_eq_iff)

lemma is_alnum_enum:
  "is_alnum c \<longleftrightarrow> c \<in> set ''ABCDEFGHIJKLMNOPQRSTUVWXYZabcdefghijklmnopqrstuvwxyz0123456789''"
proof -
  define n where "n = (of_char c :: nat)"
  have eq: "\<And>d. (c = d) = (n = of_char d)"
    unfolding n_def by (rule char_eq_code)
  show ?thesis
    unfolding is_alnum_def in_range_def n_def[symmetric]
    by (simp add: eq) arith
qed

lemma safe_char_enum: "safe_char c \<longleftrightarrow> c \<in> set allowed_chars"
  unfolding safe_char_def is_alnum_enum allowed_chars_def by auto

lemma safe_underscore: "safe_char CHR ''_''"
  by (simp add: safe_char_def)

lemma re_sub_char_underscore:
  "re_sub_char (\<lambda>c. \<not> safe_char c) ''_'' s = map (\<lambda>c. if safe_char c then c else CHR ''_'') s"
  by (induction s) (simp_all add: re_sub_char_def)

lemma replace_unsafe_map:
  "replace_unsafe s = map (\<lambda>c. if safe_char c then c else CHR ''_'') s"
  by (induction s) (simp_all add: safe_char_enum)

lemma strip_leading_dropWhile:
  "strip_leading_underscores s = dropWhile (\<lambda>c. c = CHR ''_'') s"
  by (induction s) simp_all

lemma strip_trailing_Nil_iff:
  "strip_trailing_underscores s = [] \<longleftrightarrow> (\<forall>c \<in> set s. c = CHR ''_'')"
  by (induction s) (auto simp: Let_def)

lemma strip_trailing_rev:
  "strip_trailing_underscores s = rev (dropWhile (\<lambda>c. c = CHR ''_'') (rev s))"
proof (induction s)
  case Nil
  show ?case by simp
next
  case (Cons c cs)
  show ?case
  proof (cases "\<forall>x \<in> set cs. x = CHR ''_''")
    case True
    then have "strip_trailing_underscores cs = []"
      by (simp add: strip_trailing_Nil_iff)
    moreover from True have "dropWhile (\<lambda>c. c = CHR ''_'') (rev cs @ [c]) = dropWhile (\<lambda>c. c = CHR ''_'') [c]"
      by (intro dropWhile_append2) simp
    ultimately show ?thesis by simp
  next
    case False
    then have ne: "strip_trailing_underscores cs \<noteq> []"
      by (simp add: strip_trailing_Nil_iff)
    from False have "\<exists>x \<in> set (rev cs). \<not> x = CHR ''_''" by simp
    then have "dropWhile (\<lambda>c. c = CHR ''_'') (rev cs @ [c]) = dropWhile (\<lambda>c. c = CHR ''_'') (rev cs) @ [c]"
      by (auto simp: dropWhile_append1)
    with ne Cons.IH show ?thesis by (simp add: Let_def)
  qed
qed

lemma py_strip_underscore:
  "py_strip ''_'' s = strip_trailing_underscores (strip_leading_underscores s)"
  by (simp add: py_strip_def strip_trailing_rev strip_leading_dropWhile)

lemma sanitize_eq_reference: "sanitize_icon_name s = sanitize_reference s"
  by (simp add: sanitize_icon_name_def sanitize_reference_def Let_def fallback_token_def
      py_strip_underscore re_sub_char_underscore replace_unsafe_map)

lemma set_py_strip: "set (py_strip chars s) \<subseteq> set s"
proof -
  have "set (py_strip chars s) \<subseteq> set (dropWhile (\<lambda>c. c \<in> set chars) s)"
    unfolding py_strip_def set_rev by (auto dest: set_dropWhileD)
  also have "\<dots> \<subseteq> set s"
    by (auto dest: set_dropWhileD)
  finally show ?thesis .
qed

lemma sanitize_nonempty: "sanitize_icon_name s \<noteq> []"
  by (simp add: sanitize_icon_name_def Let_def)

lemma sanitize_safe: "c \<in> set (sanitize_icon_name s) \<Longrightarrow> safe_char c"
proof -
  assume c: "c \<in> set (sanitize_icon_name s)"
  let ?r = "re_sub_char (\<lambda>c. \<not> safe_char c) ''_'' s"
  show "safe_char c"
  proof (cases "py_strip ''_'' ?r = []")
    case True
    with c have "c \<in> set ''icon''"
      by (simp add: sanitize_icon_name_def Let_def)
    then show ?thesis
      by (auto simp: safe_char_def is_alnum_def in_range_def)
  next
    case False
    with c have "c \<in> set (py_strip ''_'' ?r)"
      by (simp add: sanitize_icon_name_def Let_def)
    then have "c \<in> set ?r"
      using set_py_strip by blast
    then show ?thesis
      by (auto simp: re_sub_char_underscore safe_underscore split: if_splits)
  qed
qed

lemma sanitize_my_icon: "sanitize_icon_name ''my icon!@#'' = ''my_icon''"
  by (simp add: sanitize_icon_name_def re_sub_char_def py_strip_def safe_char_def
      is_alnum_def in_range_def)

lemma sanitize_underscores: "sanitize_icon_name ''___'' = ''icon''"
  by (simp add: sanitize_icon_name_def re_sub_char_def py_strip_def safe_char_def
      is_alnum_def in_range_def)

lemma sanitize_valid_name: "sanitize_icon_name ''valid-Name_1'' = ''valid-Name_1''"
  by (simp add: sanitize_icon_name_def re_sub_char_def py_strip_def safe_char_def
      is_alnum_def in_range_def)

text \<open>
  C1. For every string, \<^verbatim>\<open>sanitize_icon_name\<close> computes what the specification's
  words describe: every character outside A-Z, a-z, 0-9, hyphen and underscore becomes
  an underscore, the underscores at both ends are removed, and an empty result is
  replaced by the fallback token \<^verbatim>\<open>icon\<close>. The output is never empty and consists
  of allowed characters only, and the three documented examples evaluate as stated.
\<close>

theorem sanitize_matches_reference:
  "sanitize_icon_name s = sanitize_reference s
   \<and> sanitize_icon_name s \<noteq> []
   \<and> set (sanitize_icon_name s) \<subseteq> set allowed_chars
   \<and> sanitize_icon_name ''my icon!@#'' = ''my_icon''
   \<and> sanitize_icon_name ''___'' = fallback_token \<and> fallback_token \<noteq> []
   \<and> sanitize_icon_name ''valid-Name_1'' = ''valid-Name_1''"
proof -
  have "set (sanitize_icon_name s) \<subseteq> set allowed_chars"
    using sanitize_safe safe_char_enum by blast
  then show ?thesis
    using sanitize_eq_reference sanitize_nonempty sanitize_my_icon sanitize_underscores
      sanitize_valid_name
    by (simp add: fallback_token_def)
qed

theorem sanitize_matches_reference_witness:
  "sanitize_icon_name ''a/b c'' = sanitize_reference ''a/b c''
   \<and> sanitize_icon_name ''a/b c'' \<noteq> []
   \<and> set (sanitize_icon_name ''a/b c'') \<subseteq> set allowed_chars"
  using sanitize_matches_reference [of "''a/b c''"] by blast

lemma py_strip_ends:
  assumes "py_strip chars s \<noteq> []"
  shows "hd (py_strip chars s) \<notin> set chars \<and> last (py_strip chars s) \<notin> set chars"
proof -
  let ?P = "\<lambda>c. c \<in> set chars"
  let ?ys = "dropWhile ?P s"
  let ?zs = "dropWhile ?P (rev ?ys)"
  from assms have zs: "?zs \<noteq> []" by (simp add: py_strip_def)
  have ys: "?ys \<noteq> []"
  proof
    assume "?ys = []"
    then have "?zs = []" by (metis dropWhile.simps(1) rev.simps(1))
    with zs show False by simp
  qed
  have "last (py_strip chars s) = hd ?zs"
    using zs by (simp add: py_strip_def last_rev)
  moreover have "\<not> ?P (hd ?zs)"
    using zs by (rule hd_dropWhile)
  moreover have "?ys = rev ?zs @ rev (takeWhile ?P (rev ?ys))"
    by (metis rev_append rev_rev_ident takeWhile_dropWhile_id)
  then have "hd ?ys = hd (rev ?zs)"
    using zs by (metis hd_append2 rev_is_Nil_conv)
  moreover have "\<not> ?P (hd ?ys)"
    using ys by (rule hd_dropWhile)
  ultimately show ?thesis by (simp add: py_strip_def)
qed

lemma py_strip_id:
  assumes "s \<noteq> []" "hd s \<notin> set chars" "last s \<notin> set chars"
  shows "py_strip chars s = s"
proof -
  from assms have "dropWhile (\<lambda>c. c \<in> set chars) s = s"
    by (cases s) simp_all
  moreover from assms have "dropWhile (\<lambda>c. c \<in> set chars) (rev s) = rev s"
    by (cases "rev s") (simp_all add: hd_rev)
  ultimately show ?thesis by (simp add: py_strip_def)
qed

lemma re_sub_safe_id:
  "(\<And>c. c \<in> set s \<Longrightarrow> safe_char c) \<Longrightarrow> re_sub_char (\<lambda>c. \<not> safe_char c) ''_'' s = s"
  by (simp add: re_sub_char_underscore map_idI)

lemma sanitize_fixed:
  assumes "s \<noteq> []" "\<And>c. c \<in> set s \<Longrightarrow> safe_char c" "hd s \<noteq> CHR ''_''" "last s \<noteq> CHR ''_''"
  shows "sanitize_icon_name s = s"
  using assms by (simp add: sanitize_icon_name_def Let_def re_sub_safe_id py_strip_id)

text \<open>
  C9. Sanitizing is idempotent: a sanitized name is a fixed point of
  \<^verbatim>\<open>sanitize_icon_name\<close>.
\<close>

theorem sanitize_idempotent: "sanitize_icon_name (sanitize_icon_name s) = sanitize_icon_name s"
proof -
  let ?t = "py_strip ''_'' (re_sub_char (\<lambda>c. \<not> safe_char c) ''_'' s)"
  show ?thesis
  proof (cases "?t = []")
    case True
    then have "sanitize_icon_name s = ''icon''"
      by (simp add: sanitize_icon_name_def Let_def)
    moreover have "sanitize_icon_name ''icon'' = ''icon''"
      by (simp add: sanitize_icon_name_def re_sub_char_def py_strip_def safe_char_def
          is_alnum_def in_range_def)
    ultimately show ?thesis by simp
  next
    case False
    then have t: "sanitize_icon_name s = ?t"
      by (simp add: sanitize_icon_name_def Let_def)
    from False have "hd ?t \<noteq> CHR ''_''" "last ?t \<noteq> CHR ''_''"
      using py_strip_ends [of "''_''"] by auto
    moreover have "\<And>c. c \<in> set ?t \<Longrightarrow> safe_char c"
      using sanitize_safe [of _ s] t by simp
    ultimately have "sanitize_icon_name ?t = ?t"
      using False by (intro sanitize_fixed)
    with t show ?thesis by simp
  qed
qed

section \<open>Properties of the address validator\<close>

lemma rep_match_pow:
  assumes m: "\<And>s. set (m s) = {rest. \<exists>w \<in> L. s = w @ rest}"
  shows "set (rep_match m lo hi s) = {rest. \<exists>k w. lo \<le> k \<and> k \<le> hi \<and> w \<in> pow L k \<and> s = w @ rest}"
proof (induction hi arbitrary: lo s)
  case 0
  show ?case by auto
next
  case (Suc hi)
  show ?case
  proof (intro set_eqI iffI)
    fix rest
    assume "rest \<in> set (rep_match m lo (Suc hi) s)"
    then consider (step) mid where "mid \<in> set (m s)" "rest \<in> set (rep_match m (lo - 1) hi mid)"
      | (stop) "lo = 0" "rest = s"
      by (auto split: if_splits)
    then show "rest \<in> {rest. \<exists>k w. lo \<le> k \<and> k \<le> Suc hi \<and> w \<in> pow L k \<and> s = w @ rest}"
    proof cases
      case step
      from step(1) obtain u where u: "u \<in> L" "s = u @ mid"
        using m by auto
      from step(2) obtain k v where kv: "lo - 1 \<le> k" "k \<le> hi" "v \<in> pow L k" "mid = v @ rest"
        using Suc.IH by auto
      have "lo \<le> Suc k" "Suc k \<le> Suc hi" "u @ v \<in> pow L (Suc k)" "s = (u @ v) @ rest"
        using u kv by auto
      then show ?thesis by blast
    next
      case stop
      then have "lo \<le> 0" "0 \<le> Suc hi" "[] \<in> pow L 0" "s = [] @ rest" by auto
      then show ?thesis by blast
    qed
  next
    fix rest
    assume "rest \<in> {rest. \<exists>k w. lo \<le> k \<and> k \<le> Suc hi \<and> w \<in> pow L k \<and> s = w @ rest}"
    then obtain k w where kw: "lo \<le> k" "k \<le> Suc hi" "w \<in> pow L k" "s = w @ rest"
      by blast
    show "rest \<in> set (rep_match m lo (Suc hi) s)"
    proof (cases k)
      case 0
      with kw show ?thesis by simp
    next
      case (Suc k')
      with kw(3) obtain u v where uv: "w = u @ v" "u \<in> L" "v \<in> pow L k'"
        by auto
      have "v @ rest \<in> set (m s)"
        using m uv kw(4) by auto
      moreover have "lo - 1 \<le> k'" "k' \<le> hi"
        using kw(1,2) Suc by auto
      then have "rest \<in> {r. \<exists>k w. lo - 1 \<le> k \<and> k \<le> hi \<and> w \<in> pow L k \<and> v @ rest = w @ r}"
        using uv(3) by blast
      then have "rest \<in> set (rep_match m (lo - 1) hi (v @ rest))"
        unfolding Suc.IH [of "lo - 1" "v @ rest"] .
      ultimately show ?thesis by auto
    qed
  qed
qed

lemma pow_short: "w \<in> pow L k \<Longrightarrow> \<exists>k' \<le> length w. w \<in> pow L k'"
proof (induction k arbitrary: w)
  case 0
  then show ?case by auto
next
  case (Suc k)
  then obtain u v where uv: "w = u @ v" "u \<in> L" "v \<in> pow L k" by auto
  from Suc.IH [OF uv(3)] obtain k' where k': "k' \<le> length v" "v \<in> pow L k'" by blast
  show ?case
  proof (cases "u = []")
    case True
    with uv k' show ?thesis by auto
  next
    case False
    then have "Suc k' \<le> length w" using uv k' by (cases u) auto
    moreover have "w \<in> pow L (Suc k')" using uv k' by auto
    ultimately show ?thesis by blast
  qed
qed

theorem rmatch_lang: "set (rmatch r s) = {rest. \<exists>w \<in> lang r. s = w @ rest}"
proof (induction r arbitrary: s)
  case (Cls P)
  show ?case by (cases s) auto
next
  case (Seq r1 r2)
  show ?case
    unfolding rmatch.simps set_concat set_map lang.simps
    using Seq.IH by (auto, metis+)
next
  case (Opt r)
  show ?case using Opt.IH by auto
next
  case (Rep lo hi r)
  show ?case
    using rep_match_pow [of "rmatch r" "lang r" lo hi s] Rep.IH by auto
next
  case (Star r)
  have "set (rep_match (rmatch r) 0 (length s) s) =
      {rest. \<exists>k w. 0 \<le> k \<and> k \<le> length s \<and> w \<in> pow (lang r) k \<and> s = w @ rest}"
    using Star.IH by (intro rep_match_pow) auto
  also have "\<dots> = {rest. \<exists>w \<in> lang (Star r). s = w @ rest}"
  proof (intro set_eqI iffI)
    fix rest
    assume "rest \<in> {rest. \<exists>w \<in> lang (Star r). s = w @ rest}"
    then obtain k w where kw: "w \<in> pow (lang r) k" "s = w @ rest" by auto
    from pow_short [OF kw(1)] obtain k' where "k' \<le> length w" "w \<in> pow (lang r) k'" by blast
    with kw(2) have "k' \<le> length s" by simp
    with \<open>w \<in> pow (lang r) k'\<close> kw(2)
    show "rest \<in> {rest. \<exists>k w. 0 \<le> k \<and> k \<le> length s \<and> w \<in> pow (lang r) k \<and> s = w @ rest}"
      by blast
  qed auto
  finally show ?case by simp
qed

subsection \<open>split and join\<close>

lemma py_split_ne: "py_split sep s \<noteq> []"
  by (induction s) (auto split: list.splits)

lemma py_split_nosep: "sep \<notin> set l \<Longrightarrow> py_split sep l = [l]"
  by (induction l) auto

lemma py_split_append: "sep \<notin> set l \<Longrightarrow> py_split sep (l @ sep # rest) = l # py_split sep rest"
  by (induction l) auto

lemma py_split_no_sep: "g \<in> set (py_split sep s) \<Longrightarrow> sep \<notin> set g"
  by (induction s arbitrary: g) (auto split: list.splits if_splits)

lemma join_dot_Cons: "join_dot ((c # g) # gs) = c # join_dot (g # gs)"
  by (cases gs) simp_all

lemma join_dot_Nil_Cons: "gs \<noteq> [] \<Longrightarrow> join_dot ([] # gs) = CHR ''.'' # join_dot gs"
  by (cases gs) simp_all

lemma join_split: "join_dot (py_split CHR ''.'' s) = s"
proof (induction s)
  case Nil
  show ?case by simp
next
  case (Cons c cs)
  obtain g gs where g: "py_split CHR ''.'' cs = g # gs"
    using py_split_ne [of "CHR ''.''" cs] by (cases "py_split CHR ''.'' cs") auto
  show ?case
    using Cons.IH g by (simp add: join_dot_Cons join_dot_Nil_Cons del: join_dot.simps)
qed

lemma split_join:
  "ls \<noteq> [] \<Longrightarrow> (\<And>l. l \<in> set ls \<Longrightarrow> CHR ''.'' \<notin> set l) \<Longrightarrow> py_split CHR ''.'' (join_dot ls) = ls"
proof (induction ls rule: join_dot.induct)
  case 1
  then show ?case by simp
next
  case (2 g)
  then show ?case by (simp add: py_split_nosep)
next
  case (3 g h gs)
  then have "py_split CHR ''.'' (join_dot (h # gs)) = h # gs" by simp
  moreover have "CHR ''.'' \<notin> set g" using 3 by simp
  ultimately show ?case
    using py_split_append [of "CHR ''.''" g "join_dot (h # gs)"] by simp
qed

subsection \<open>digit groups\<close>

lemma pow_Cls: "pow {[c] | c. P c} k = {w. length w = k \<and> list_all P w}"
proof (induction k)
  case 0
  show ?case by auto
next
  case (Suc k)
  show ?case
  proof (intro set_eqI iffI)
    fix w assume "w \<in> pow {[c] | c. P c} (Suc k)"
    then show "w \<in> {w. length w = Suc k \<and> list_all P w}"
      unfolding pow.simps Suc.IH by auto
  next
    fix w assume "w \<in> {w. length w = Suc k \<and> list_all P w}"
    then obtain c v where "w = [c] @ v" "P c" "length v = k" "list_all P v"
      by (cases w) auto
    then show "w \<in> pow {[c] | c. P c} (Suc k)"
      unfolding pow.simps Suc.IH by blast
  qed
qed

lemma lang_digits_1_3: "lang digits_1_3 = {g. digit_group g}"
  by (auto simp: digits_1_3_def pow_Cls digit_group_def)

lemma digit_not_dot: "is_digit c \<Longrightarrow> c \<noteq> CHR ''.''"
  by (auto simp: is_digit_def in_range_def)

lemma digit_group_no_dot: "digit_group g \<Longrightarrow> CHR ''.'' \<notin> set g"
  by (auto simp: digit_group_def list_all_iff dest: digit_not_dot)

lemma pow_SucI: "u \<in> L \<Longrightarrow> v \<in> pow L n \<Longrightarrow> u @ v \<in> pow L (Suc n)"
  by auto

lemma lang_group_dot: "lang (Seq digits_1_3 dot) = {a @ ''.'' | a. digit_group a}"
  by (auto simp: dot_def lang_digits_1_3)

lemma lang_SeqI: "u \<in> lang r1 \<Longrightarrow> v \<in> lang r2 \<Longrightarrow> u @ v \<in> lang (Seq r1 r2)"
  by auto

lemma lang_RepI: "lo \<le> k \<Longrightarrow> k \<le> hi \<Longrightarrow> w \<in> pow (lang r) k \<Longrightarrow> w \<in> lang (Rep lo hi r)"
  by auto

lemma pow_3: "x \<in> pow L 3 \<longleftrightarrow> (\<exists>u1 u2 u3. x = u1 @ u2 @ u3 \<and> u1 \<in> L \<and> u2 \<in> L \<and> u3 \<in> L)"
  unfolding numeral_3_eq_3 pow.simps by auto

lemma pow3_group_dot:
  "x \<in> pow (lang (Seq digits_1_3 dot)) 3 \<longleftrightarrow>
     (\<exists>a b c. digit_group a \<and> digit_group b \<and> digit_group c \<and> x = a @ ''.'' @ b @ ''.'' @ c @ ''.'')"
proof
  assume "x \<in> pow (lang (Seq digits_1_3 dot)) 3"
  then obtain u1 u2 u3 where x: "x = u1 @ u2 @ u3"
    and u: "u1 \<in> lang (Seq digits_1_3 dot)" "u2 \<in> lang (Seq digits_1_3 dot)"
      "u3 \<in> lang (Seq digits_1_3 dot)"
    unfolding pow_3 by blast
  from u obtain a b c where "u1 = a @ ''.''" "u2 = b @ ''.''" "u3 = c @ ''.''"
    "digit_group a" "digit_group b" "digit_group c"
    unfolding lang_group_dot by blast
  with x show "\<exists>a b c. digit_group a \<and> digit_group b \<and> digit_group c \<and> x = a @ ''.'' @ b @ ''.'' @ c @ ''.''"
    by (intro exI [of _ a] exI [of _ b] exI [of _ c]) simp
next
  assume "\<exists>a b c. digit_group a \<and> digit_group b \<and> digit_group c \<and> x = a @ ''.'' @ b @ ''.'' @ c @ ''.''"
  then obtain a b c where g: "digit_group a" "digit_group b" "digit_group c"
    and x: "x = (a @ ''.'') @ (b @ ''.'') @ (c @ ''.'') @ []"
    by auto
  have "\<And>a. digit_group a \<Longrightarrow> a @ ''.'' \<in> lang (Seq digits_1_3 dot)"
    unfolding lang_group_dot by blast
  then show "x \<in> pow (lang (Seq digits_1_3 dot)) 3"
    unfolding numeral_3_eq_3 x using g by (intro pow_SucI) simp_all
qed

lemma lang_ipv4:
  "x \<in> lang (Seq (Rep 3 3 (Seq digits_1_3 dot)) digits_1_3) \<longleftrightarrow>
     (\<exists>a b c d. digit_group a \<and> digit_group b \<and> digit_group c \<and> digit_group d
        \<and> x = join_dot [a, b, c, d])"
proof
  assume "x \<in> lang (Seq (Rep 3 3 (Seq digits_1_3 dot)) digits_1_3)"
  then obtain u d where x: "x = u @ d" and u: "u \<in> pow (lang (Seq digits_1_3 dot)) 3"
    and d: "digit_group d"
    by (auto simp: lang_digits_1_3)
  from u obtain a b c where "digit_group a" "digit_group b" "digit_group c"
    "u = a @ ''.'' @ b @ ''.'' @ c @ ''.''"
    unfolding pow3_group_dot by blast
  with x d show "\<exists>a b c d. digit_group a \<and> digit_group b \<and> digit_group c \<and> digit_group d
        \<and> x = join_dot [a, b, c, d]"
    by (intro exI [of _ a] exI [of _ b] exI [of _ c] exI [of _ d]) simp
next
  assume "\<exists>a b c d. digit_group a \<and> digit_group b \<and> digit_group c \<and> digit_group d
        \<and> x = join_dot [a, b, c, d]"
  then obtain a b c d where g: "digit_group a" "digit_group b" "digit_group c" "digit_group d"
    and x: "x = (a @ ''.'' @ b @ ''.'' @ c @ ''.'') @ d"
    by auto
  have "a @ ''.'' @ b @ ''.'' @ c @ ''.'' \<in> pow (lang (Seq digits_1_3 dot)) 3"
    unfolding pow3_group_dot using g by blast
  moreover have "d \<in> lang digits_1_3"
    using g(4) by (simp add: lang_digits_1_3)
  ultimately show "x \<in> lang (Seq (Rep 3 3 (Seq digits_1_3 dot)) digits_1_3)"
    unfolding x by (intro lang_SeqI lang_RepI [of 3 3]) simp_all
qed

lemma dotted_quad_iff:
  "dotted_quad s \<longleftrightarrow>
     (\<exists>a b c d. digit_group a \<and> digit_group b \<and> digit_group c \<and> digit_group d \<and> s = join_dot [a, b, c, d])"
proof
  assume dq: "dotted_quad s"
  then have "length (py_split CHR ''.'' s) = 4"
    by (simp add: dotted_quad_def Let_def)
  then obtain a b c d where gs: "py_split CHR ''.'' s = [a, b, c, d]"
    by (auto simp: length_Suc_conv numeral_eq_Suc)
  then have "s = join_dot [a, b, c, d]"
    using join_split [of s] by simp
  with dq gs show "\<exists>a b c d. digit_group a \<and> digit_group b \<and> digit_group c \<and> digit_group d \<and> s = join_dot [a, b, c, d]"
    by (auto simp: dotted_quad_def)
next
  assume "\<exists>a b c d. digit_group a \<and> digit_group b \<and> digit_group c \<and> digit_group d \<and> s = join_dot [a, b, c, d]"
  then obtain a b c d where g: "digit_group a" "digit_group b" "digit_group c" "digit_group d"
    and s: "s = join_dot [a, b, c, d]" by blast
  have "py_split CHR ''.'' (join_dot [a, b, c, d]) = [a, b, c, d]"
    using g by (intro split_join) (auto dest: digit_group_no_dot)
  with g s show "dotted_quad s"
    by (simp add: dotted_quad_def)
qed

lemma re_match_single:
  "re_match [r] s \<longleftrightarrow> (\<exists>w \<in> lang r. s = w \<or> s = w @ [CHR 0x0A])"
  by (auto simp: re_match_def list_ex_iff rmatch_lang at_dollar_def)

lemma re_match_ipv4:
  "re_match ipv4_pattern s \<longleftrightarrow> dotted_quad s \<or> (\<exists>t. s = t @ [CHR 0x0A] \<and> dotted_quad t)"
proof -
  have "\<And>w. w \<in> lang (Seq (Rep 3 3 (Seq digits_1_3 dot)) digits_1_3) \<longleftrightarrow> dotted_quad w"
    unfolding lang_ipv4 dotted_quad_iff ..
  then show ?thesis
    unfolding ipv4_pattern_def re_match_single by blast
qed

subsection \<open>int() on digit strings\<close>

lemma digit_facts:
  "is_digit c \<Longrightarrow> \<not> int_space c \<and> c \<noteq> CHR ''-'' \<and> c \<noteq> CHR ''+'' \<and> c \<noteq> CHR ''_'' \<and> 48 \<le> (of_char c :: nat)"
  by (auto simp: is_digit_def int_space_def in_range_def)

lemma py_int_digits:
  assumes "g \<noteq> []" "list_all is_digit g" "length g \<le> int_max_str_digits"
  shows "py_int g = Some (decimal_value g)"
proof -
  from assms obtain c cs where g: "g = c # cs" "is_digit c"
    by (cases g) auto
  from assms have l: "is_digit (last g)"
    by (simp add: list_all_iff)
  have 1: "dropWhile int_space g = g"
    using g digit_facts by simp
  have "rev g \<noteq> []" "hd (rev g) = last g"
    using assms by (simp_all add: hd_rev)
  then obtain x xs where "rev g = x # xs" "x = last g"
    by (cases "rev g") auto
  moreover have "\<not> int_space (last g)"
    using l digit_facts by simp
  ultimately have 2: "dropWhile int_space (rev g) = rev g"
    by (simp only: dropWhile.simps if_False)
  have 3: "py_split CHR ''_'' g = [g]"
    using assms digit_facts by (intro py_split_nosep) (auto simp: list_all_iff)
  show ?thesis
    unfolding py_int_def 1 2 rev_rev_ident
    using g digit_facts [of c] 3 assms by (simp add: Let_def)
qed

lemma decimal_value_nonneg:
  "list_all is_digit g \<Longrightarrow> 0 \<le> a \<Longrightarrow> 0 \<le> foldl (\<lambda>a c. 10 * a + (int (of_char c) - 48)) a g"
proof (induction g arbitrary: a)
  case Nil
  then show ?case by simp
next
  case (Cons c g)
  then have "48 \<le> (of_char c :: nat)" using digit_facts by simp
  then have "0 \<le> 10 * a + (int (of_char c) - 48)" using Cons.prems by simp
  then show ?case using Cons by simp
qed

lemma octets_in_range_digits:
  "list_all digit_group gs \<Longrightarrow> octets_in_range gs = Some (list_all octet_in_range gs)"
proof (induction gs)
  case Nil
  show ?case by simp
next
  case (Cons g gs)
  then have g: "g \<noteq> []" "list_all is_digit g" "length g \<le> int_max_str_digits"
    by (auto simp: digit_group_def int_max_str_digits_def)
  then have "py_int g = Some (decimal_value g)" "0 \<le> decimal_value g"
    using py_int_digits decimal_value_nonneg [of g 0] by (simp_all add: decimal_value_def)
  with Cons show ?case
    by (auto simp: octet_in_range_def)
qed

lemma validate_dotted_quad:
  assumes "dotted_quad s"
  shows "validate_ip_or_hostname s \<longleftrightarrow> list_all octet_in_range (py_split CHR ''.'' s)"
proof (cases "s = ''127.0.0.1''")
  case True
  then show ?thesis
    by (simp add: validate_ip_or_hostname_def octet_in_range_def decimal_value_def)
next
  case False
  have "\<not> dotted_quad []" "\<not> dotted_quad ''localhost''"
    by (simp_all add: dotted_quad_def)
  with assms have "s \<noteq> []" "s \<noteq> ''localhost''" by auto
  moreover have "re_match ipv4_pattern s"
    using assms re_match_ipv4 by blast
  moreover have "list_all digit_group (py_split CHR ''.'' s)"
    using assms by (simp add: dotted_quad_def Let_def)
  ultimately show ?thesis
    using False by (simp add: validate_ip_or_hostname_def octets_in_range_digits)
qed

subsection \<open>host names\<close>

lemma lang_label:
  assumes "is_label l"
  shows "l \<in> lang label"
proof -
  from assms obtain c t where l: "l = c # t"
    by (cases l) (auto simp: is_label_def)
  from assms l have c: "[c] \<in> lang (Cls is_alnum)"
    by (simp add: is_label_def)
  let ?opt = "Opt (Seq (Rep 0 61 (Cls is_alnum_hyphen)) (Cls is_alnum))"
  have "t \<in> lang ?opt"
  proof (cases "t = []")
    case True
    then show ?thesis by simp
  next
    case False
    then obtain m d where t: "t = m @ [d]"
      by (metis append_butlast_last_id)
    from assms l t have d: "[d] \<in> lang (Cls is_alnum)"
      by (simp add: is_label_def)
    from assms l t have "length m \<le> 61" "list_all is_alnum_hyphen m"
      by (simp_all add: is_label_def)
    then have "m \<in> pow (lang (Cls is_alnum_hyphen)) (length m)"
      by (simp add: pow_Cls)
    then have "m \<in> lang (Rep 0 61 (Cls is_alnum_hyphen))"
      using \<open>length m \<le> 61\<close> by (intro lang_RepI [of 0 "length m" 61]) simp_all
    then have "m @ [d] \<in> lang (Seq (Rep 0 61 (Cls is_alnum_hyphen)) (Cls is_alnum))"
      using d by (rule lang_SeqI)
    then show ?thesis
      unfolding t lang.simps(3) by (rule insertI2)
  qed
  with c have "[c] @ t \<in> lang (Seq (Cls is_alnum) ?opt)"
    by (rule lang_SeqI)
  then show ?thesis
    by (simp add: l label_def)
qed

lemma join_dot_tail: "join_dot (l # ls) = l @ concat (map (\<lambda>x. ''.'' @ x) ls)"
  by (induction ls arbitrary: l) simp_all

lemma labels_pow:
  "list_all is_label ls \<Longrightarrow>
     concat (map (\<lambda>x. ''.'' @ x) ls) \<in> pow (lang (Seq dot label)) (length ls)"
proof (induction ls)
  case Nil
  show ?case by simp
next
  case (Cons l ls)
  have "''.'' \<in> lang dot"
    by (simp add: dot_def)
  moreover have "l \<in> lang label"
    using Cons.prems by (simp add: lang_label)
  ultimately have "''.'' @ l \<in> lang (Seq dot label)"
    by (rule lang_SeqI)
  moreover have "concat (map (\<lambda>x. ''.'' @ x) ls) \<in> pow (lang (Seq dot label)) (length ls)"
    using Cons by simp
  ultimately have "(''.'' @ l) @ concat (map (\<lambda>x. ''.'' @ x) ls) \<in> pow (lang (Seq dot label)) (Suc (length ls))"
    by (rule pow_SucI)
  then show ?case by simp
qed

lemma hostname_lang:
  assumes "hostname_grammar s"
  shows "s \<in> lang (Seq label (Star (Seq dot label)))"
proof -
  obtain l ls where ls: "py_split CHR ''.'' s = l # ls"
    using py_split_ne [of "CHR ''.''" s] by (cases "py_split CHR ''.'' s") auto
  with assms have lab: "is_label l" "list_all is_label ls"
    by (simp_all add: hostname_grammar_def)
  have "s = join_dot (l # ls)"
    using join_split [of s] ls by simp
  then have s: "s = l @ concat (map (\<lambda>x. ''.'' @ x) ls)"
    by (simp only: join_dot_tail)
  have "concat (map (\<lambda>x. ''.'' @ x) ls) \<in> lang (Star (Seq dot label))"
    using labels_pow [OF lab(2)] unfolding lang.simps(5) by blast
  with lang_label [OF lab(1)] show ?thesis
    unfolding s by (rule lang_SeqI)
qed

lemma re_match_hostname: "hostname_grammar s \<Longrightarrow> re_match hostname_pattern s"
proof -
  assume "hostname_grammar s"
  then have "re_match [Seq label (Star (Seq dot label))] s"
    unfolding re_match_single using hostname_lang by blast
  then show ?thesis
    by (simp add: re_match_def hostname_pattern_def)
qed

lemma set_join_dot: "set (join_dot ls) \<subseteq> insert CHR ''.'' (\<Union>l \<in> set ls. set l)"
  by (induction ls rule: join_dot.induct) auto

lemma hostname_chars:
  assumes "hostname_grammar s" "c \<in> set s"
  shows "is_alnum_hyphen c \<or> c = CHR ''.''"
proof -
  have "c \<in> set (join_dot (py_split CHR ''.'' s))"
    using assms(2) by (simp add: join_split)
  then have "c = CHR ''.'' \<or> (\<exists>l \<in> set (py_split CHR ''.'' s). c \<in> set l)"
    using set_join_dot by fastforce
  then show ?thesis
    using assms(1) by (auto simp: hostname_grammar_def is_label_def list_all_iff)
qed

lemma hostname_not_quad_newline:
  assumes "hostname_grammar s"
  shows "s \<noteq> t @ [CHR 0x0A]"
proof
  assume "s = t @ [CHR 0x0A]"
  then have "CHR 0x0A \<in> set s" by simp
  then have "is_alnum_hyphen (CHR 0x0A) \<or> CHR 0x0A = CHR ''.''"
    using assms hostname_chars by blast
  then show False
    by (simp add: is_alnum_hyphen_def is_alnum_def in_range_def)
qed

lemma validate_hostname:
  assumes "hostname_grammar s" "\<not> dotted_quad s"
  shows "validate_ip_or_hostname s"
proof -
  have "\<not> hostname_grammar []"
    by (simp add: hostname_grammar_def is_label_def)
  with assms have "s \<noteq> []" by auto
  moreover have "\<not> re_match ipv4_pattern s"
    using assms hostname_not_quad_newline by (auto simp: re_match_ipv4)
  ultimately show ?thesis
    using re_match_hostname [OF assms(1)] by (simp add: validate_ip_or_hostname_def)
qed

subsection \<open>Evaluating the validator on concrete addresses\<close>

lemma rep_match_numeral:
  "rep_match m lo (numeral k) s =
     concat (map (rep_match m (lo - 1) (pred_numeral k)) (m s)) @ (if lo = 0 then [s] else [])"
  by (simp add: numeral_eq_Suc)

lemmas validator_defs = validate_ip_or_hostname_def re_match_def ipv4_pattern_def
  hostname_pattern_def label_def dot_def digits_1_3_def at_dollar_def is_digit_def is_alnum_def
  is_alnum_hyphen_def in_range_def py_int_def int_max_str_digits_def int_space_def decimal_value_def
  rep_match_numeral

lemmas grammar_defs = dotted_quad_def four_decimal_groups_def is_label_def hostname_grammar_def
  digit_group_def octet_in_range_def is_digit_def is_alnum_def is_alnum_hyphen_def in_range_def
  decimal_value_def

lemma validate_192_168_1_100: "validate_ip_or_hostname ''192.168.1.100''"
  by (simp add: validator_defs)

lemma validate_256_1_1_1: "\<not> validate_ip_or_hostname ''256.1.1.1''"
  by (simp add: validator_defs)

lemma validate_my_device_local: "validate_ip_or_hostname ''my-device.local''"
  by (simp add: validator_defs)

lemma validate_fixed_cases:
  "\<not> validate_ip_or_hostname []"
  "validate_ip_or_hostname ''localhost''"
  "validate_ip_or_hostname ''127.0.0.1''"
  by (simp_all add: validate_ip_or_hostname_def)

text \<open>
  C2, as the specification states it, fails: a string of four dot-separated non-empty
  groups of decimal digits with a group of more than three digits does not match the
  IPv4 pattern \<^verbatim>\<open>^(\d{1,3}\.){3}\d{1,3}$\<close>, falls through to the host-name pattern
  and is accepted, although a group is above 255.
\<close>

theorem four_groups_not_checked_counterexample:
  "four_decimal_groups ''1000.1.1.1''
   \<and> validate_ip_or_hostname ''1000.1.1.1''
   \<and> \<not> list_all octet_in_range (py_split CHR ''.'' ''1000.1.1.1'')"
  by (simp add: validator_defs grammar_defs)

text \<open>
  C2, amended. For every string of four dot-separated groups of one to three decimal
  digits each, \<^verbatim>\<open>validate_ip_or_hostname\<close> returns true only if (in fact exactly
  when) every group is an integer in the range 0 to 255; \<^verbatim>\<open>192.168.1.100\<close> is
  valid and \<^verbatim>\<open>256.1.1.1\<close> is not.
\<close>

theorem dotted_quad_octets_checked:
  "(dotted_quad s \<longrightarrow>
      (validate_ip_or_hostname s \<longleftrightarrow> list_all octet_in_range (py_split CHR ''.'' s)))
   \<and> validate_ip_or_hostname ''192.168.1.100''
   \<and> \<not> validate_ip_or_hostname ''256.1.1.1''"
  using validate_dotted_quad validate_192_168_1_100 validate_256_1_1_1 by blast

theorem dotted_quad_octets_checked_witness:
  "dotted_quad ''10.0.0.300''
   \<and> \<not> list_all octet_in_range (py_split CHR ''.'' ''10.0.0.300'')
   \<and> \<not> validate_ip_or_hostname ''10.0.0.300''"
proof -
  have q: "dotted_quad ''10.0.0.300''"
    by (simp add: grammar_defs)
  have r: "\<not> list_all octet_in_range (py_split CHR ''.'' ''10.0.0.300'')"
    by (simp add: grammar_defs)
  show ?thesis
    using dotted_quad_octets_checked [of "''10.0.0.300''"] q r by blast
qed

text \<open>
  C8, as the specification states it, fails: \<^verbatim>\<open>256.1.1.1\<close> is made of four
  labels that satisfy the host-name grammar, but it matches the IPv4 pattern first and
  is rejected there because an octet is above 255.
\<close>

theorem hostname_grammar_rejected_counterexample:
  "hostname_grammar ''256.1.1.1'' \<and> \<not> validate_ip_or_hostname ''256.1.1.1''"
  using validate_256_1_1_1 by (simp add: grammar_defs)

text \<open>
  C8, amended. \<^verbatim>\<open>validate_ip_or_hostname\<close> returns false for the empty string, true
  for \<^verbatim>\<open>localhost\<close> and \<^verbatim>\<open>127.0.0.1\<close>, and true for every string that matches
  the host-name grammar (one or more dot-separated labels of 1 to 63 characters,
  alphanumeric with inner hyphens, no hyphen at either end) and is not made of four
  dot-separated groups of one to three decimal digits; \<^verbatim>\<open>my-device.local\<close> is
  valid.
\<close>

theorem hostname_grammar_accepted:
  "\<not> validate_ip_or_hostname []
   \<and> validate_ip_or_hostname ''localhost''
   \<and> validate_ip_or_hostname ''127.0.0.1''
   \<and> (hostname_grammar s \<longrightarrow> \<not> dotted_quad s \<longrightarrow> validate_ip_or_hostname s)
   \<and> validate_ip_or_hostname ''my-device.local''"
  using validate_hostname validate_fixed_cases validate_my_device_local by blast

theorem hostname_grammar_accepted_witness:
  "hostname_grammar ''awtrix-1.lan'' \<and> \<not> dotted_quad ''awtrix-1.lan''
   \<and> validate_ip_or_hostname ''awtrix-1.lan''"
proof -
  have g: "hostname_grammar ''awtrix-1.lan''"
    by (simp add: grammar_defs)
  have q: "\<not> dotted_quad ''awtrix-1.lan''"
    by (simp add: grammar_defs)
  show ?thesis
    using hostname_grammar_accepted [of "''awtrix-1.lan''"] g q by blast
qed

section \<open>Properties of the download\<close>

lemma download_formats_fetch:
  "(fst (download_icon env icon_id w), snd (snd (download_icon env icon_id w))) = fetch env icon_id w"
  by (simp add: download_icon_def fetch_def classify_def
      split: prod.splits sum.splits exn.splits)

lemma download_formats_nonempty:
  "download_formats env icon_id exts w = (Inr (icon_data, ext), l, w') \<Longrightarrow>
     icon_data \<noteq> [] \<and> ext \<in> set exts"
proof (induction exts arbitrary: w)
  case Nil
  then show ?case by simp
next
  case (Cons e exts)
  then show ?case
    by (auto split: prod.splits sum.splits if_splits)
qed

lemma empty_body_is_miss:
  "urlopen env (get_request (icon_url icon_id ext)) REQUEST_TIMEOUT w = (Inr response, w') \<Longrightarrow>
   resp_body response = [] \<Longrightarrow>
   download_formats env icon_id (ext # exts) w = download_formats env icon_id exts w'"
  by simp

lemma http_error_is_miss:
  "urlopen env (get_request (icon_url icon_id ext)) REQUEST_TIMEOUT w = (Inl (HTTPError code), w') \<Longrightarrow>
   download_formats env icon_id (ext # exts) w = download_formats env icon_id exts w'"
  by simp

lemmas eval_defs = test_env_def catalogue_def device_def icon_url_def get_request_def
  str_int_def str_nat.simps digit_char_def REQUEST_TIMEOUT_def not_found_def

lemma download_1: "download_icon test_env 1 [] =
    (Inr (''GIF89a-1'', ''gif''), [Downloaded 1 ''gif''], [get_request (icon_url 1 ''gif'')])"
  by (simp add: download_icon_def eval_defs)

lemma download_4: "download_icon test_env 4 [] =
    (Inr (''PNG-4'', ''png''), [Downloaded 4 ''png''],
     [get_request (icon_url 4 ''gif''), get_request (icon_url 4 ''png'')])"
  by (simp add: download_icon_def eval_defs)

lemma download_2: "download_icon test_env 2 [] =
    (Inl (ValueError ''Could not download icon 2 - icon not found or server error''), [],
     [get_request (icon_url 2 ''gif''), get_request (icon_url 2 ''png'')])"
  by (simp add: download_icon_def eval_defs)

lemma download_5: "download_icon test_env 5 [] =
    (Inl (ValueError ''Could not download icon 5 - icon not found or server error''), [],
     [get_request (icon_url 5 ''gif''), get_request (icon_url 5 ''png'')])"
  by (simp add: download_icon_def eval_defs)

text \<open>
  C3. \<^verbatim>\<open>download_icon\<close> follows the fetch decision table: it requests the GIF,
  then the PNG; an attempt that ends in an HTTP error status is a miss and the next
  format is tried; the first response with a body is returned at once with its bytes
  and its format, and no further request is made; a transport error that is not an HTTP
  error status propagates; when both formats are missed the call fails with the
  not-found error, whose message carries the icon ID.
\<close>

theorem download_follows_decision_table:
  "(fst (download_icon env icon_id w), snd (snd (download_icon env icon_id w))) = fetch env icon_id w
   \<and> not_found icon_id =
       ValueError (''Could not download icon '' @ str_int icon_id @ '' - icon not found or server error'')
   \<and> classify (Inl (HTTPError code)) = Miss
   \<and> classify (Inl URLError) = Fatal URLError
   \<and> classify (Inl OSError) = Fatal OSError"
  using download_formats_fetch [of env icon_id w] by (simp add: not_found_def classify_def)

theorem download_follows_decision_table_witness:
  "fetch test_env 4 [] =
     (Inr (''PNG-4'', ''png''), [get_request (icon_url 4 ''gif''), get_request (icon_url 4 ''png'')])
   \<and> fetch test_env 1 [] = (Inr (''GIF89a-1'', ''gif''), [get_request (icon_url 1 ''gif'')])
   \<and> fetch test_env 2 [] =
     (Inl (ValueError ''Could not download icon 2 - icon not found or server error''),
      [get_request (icon_url 2 ''gif''), get_request (icon_url 2 ''png'')])"
  using download_follows_decision_table [of test_env 4 "[]"]
    download_follows_decision_table [of test_env 1 "[]"]
    download_follows_decision_table [of test_env 2 "[]"]
  by (simp add: download_4 download_1 download_2)

text \<open>
  C10. \<^verbatim>\<open>download_icon\<close> never returns an empty byte string. A response with an
  empty body is treated like an HTTP error status for that format: the remaining formats
  are tried, and after the last format the call fails with the not-found error.
\<close>

theorem download_never_empty:
  "(fst (download_icon env icon_id w) = Inr (icon_data, ext) \<longrightarrow> icon_data \<noteq> [])
   \<and> (urlopen env (get_request (icon_url icon_id ext)) REQUEST_TIMEOUT w = (Inr response, w')
        \<and> resp_body response = [] \<longrightarrow>
        download_formats env icon_id (ext # exts) w = download_formats env icon_id exts w')
   \<and> (urlopen env (get_request (icon_url icon_id ext)) REQUEST_TIMEOUT w = (Inl (HTTPError code), w')
        \<longrightarrow> download_formats env icon_id (ext # exts) w = download_formats env icon_id exts w')
   \<and> download_formats env icon_id [] w = (Inl (not_found icon_id), [], w)
   \<and> download_icon env icon_id w = download_formats env icon_id [''gif'', ''png''] w"
proof -
  have 1: "fst (download_icon env icon_id w) = Inr (icon_data, ext) \<longrightarrow> icon_data \<noteq> []"
    using download_formats_nonempty [of env icon_id "[''gif'', ''png'']" w icon_data ext]
    by (cases "download_icon env icon_id w") (auto simp: download_icon_def)
  have 2: "urlopen env (get_request (icon_url icon_id ext)) REQUEST_TIMEOUT w = (Inr response, w')
        \<and> resp_body response = [] \<longrightarrow>
        download_formats env icon_id (ext # exts) w = download_formats env icon_id exts w'"
    using empty_body_is_miss [of env icon_id ext w response w' exts] by blast
  have 3: "urlopen env (get_request (icon_url icon_id ext)) REQUEST_TIMEOUT w = (Inl (HTTPError code), w')
        \<longrightarrow> download_formats env icon_id (ext # exts) w = download_formats env icon_id exts w'"
    using http_error_is_miss [of env icon_id ext w code w' exts] by blast
  have 4: "download_formats env icon_id [] w = (Inl (not_found icon_id), [], w)"
    by simp
  have 5: "download_icon env icon_id w = download_formats env icon_id [''gif'', ''png''] w"
    by (simp only: download_icon_def)
  from 1 2 3 4 5 show ?thesis
    by (intro conjI)
qed

theorem download_never_empty_witness:
  "fst (download_icon test_env 1 []) = Inr (''GIF89a-1'', ''gif'') \<and> ''GIF89a-1'' \<noteq> []
   \<and> urlopen test_env (get_request (icon_url 5 ''gif'')) REQUEST_TIMEOUT [] =
       (Inr \<lparr>resp_status = 200, resp_body = []\<rparr>, [get_request (icon_url 5 ''gif'')])
   \<and> download_formats test_env 5 [''gif'', ''png''] [] =
       download_formats test_env 5 [''png''] [get_request (icon_url 5 ''gif'')]
   \<and> fst (download_icon test_env 5 []) =
       Inl (ValueError ''Could not download icon 5 - icon not found or server error'')"
proof -
  note t1 = download_never_empty [of test_env 1 "[]" "''GIF89a-1''" "''gif''"]
  note t5 = download_never_empty [of test_env 5 "[]" _ "''gif''"
      "\<lparr>resp_status = 200, resp_body = []\<rparr>" "[get_request (icon_url 5 ''gif'')]" "[''png'']"]
  have u: "urlopen test_env (get_request (icon_url 5 ''gif'')) REQUEST_TIMEOUT [] =
       (Inr \<lparr>resp_status = 200, resp_body = []\<rparr>, [get_request (icon_url 5 ''gif'')])"
    by (simp add: eval_defs)
  have rb: "resp_body \<lparr>resp_status = 200, resp_body = []\<rparr> = []"
    by simp
  have d: "fst (download_icon test_env 1 []) = Inr (''GIF89a-1'', ''gif'')"
    by (simp add: download_1)
  have n: "''GIF89a-1'' \<noteq> []"
    using t1 d by blast
  have s: "download_formats test_env 5 [''gif'', ''png''] [] =
       download_formats test_env 5 [''png''] [get_request (icon_url 5 ''gif'')]"
    using t5 u rb by blast
  have e: "fst (download_icon test_env 5 []) =
       Inl (ValueError ''Could not download icon 5 - icon not found or server error'')"
    by (simp add: download_5)
  from d n u s e show ?thesis
    by (intro conjI)
qed

section \<open>Properties of the upload\<close>

lemma encode_append: "encode (a @ b) = encode a @ encode b"
  by (simp add: encode_def)

lemma upload_request_url:
  "req_url (upload_request hex ip name icon_data ext) = ''http://'' @ ip @ ''/edit''"
  by (simp add: upload_request_def Let_def)

lemma upload_request_body:
  "req_data (upload_request hex ip name icon_data ext) =
     Some (render_multipart (''----WebKitFormBoundary'' @ hex)
       [\<lparr>part_name = ''data'',
         part_filename = ''/ICONS/'' @ sanitize_icon_name name @ ''.'' @ ext,
         part_content_type = ''image/'' @ ext,
         part_content = icon_data\<rparr>])"
  by (simp add: upload_request_def Let_def render_multipart_def render_part_def encode_append)

lemma upload_request_headers:
  "req_headers (upload_request hex ip name icon_data ext) =
     [(''Content-Type'', ''multipart/form-data; boundary=----WebKitFormBoundary'' @ hex),
      (''Content-Length'',
       str_int (int (length (the (req_data (upload_request hex ip name icon_data ext))))))]"
  by (simp add: upload_request_def Let_def)

lemma upload_request_post: "get_method (upload_request hex ip name icon_data ext) = ''POST''"
  by (simp add: get_method_def upload_request_body)

lemma upload_result:
  "upload_icon_to_awtrix env ip name icon_data ext w =
     (case urlopen env (upload_request (fst (uuid4_hex env w)) ip name icon_data ext)
             REQUEST_TIMEOUT (snd (uuid4_hex env w)) of
        (Inr response, w2) \<Rightarrow>
          if resp_status response = 200 \<or> resp_status response = 201
          then (Inr True, [Uploaded (sanitize_icon_name name) ext], w2)
          else (Inr False, [UploadFailedStatus (resp_status response)], w2)
      | (Inl e, w2) \<Rightarrow>
          if is_OSError e then (Inr False, [UploadFailed e], w2) else (Inl e, [], w2))"
proof -
  have "is_URLError e \<or> is_OSError e \<longleftrightarrow> is_OSError e" for e
    by (cases e) simp_all
  then show ?thesis
    by (simp add: upload_icon_to_awtrix_def split: prod.splits sum.splits)
qed

lemma upload_raises_iff:
  "fst (upload_icon_to_awtrix env ip name icon_data ext w) = Inl e \<longleftrightarrow>
     device_answer env ip name icon_data ext w = Inl e \<and> \<not> is_OSError e"
  by (auto simp: upload_result device_answer_def split: prod.splits sum.splits)

lemma upload_true_iff:
  "fst (upload_icon_to_awtrix env ip name icon_data ext w) = Inr True \<longleftrightarrow>
     (\<exists>response. device_answer env ip name icon_data ext w = Inr response
        \<and> (resp_status response = 200 \<or> resp_status response = 201))"
  by (auto simp: upload_result device_answer_def split: prod.splits sum.splits)

lemma upload_false_iff:
  "fst (upload_icon_to_awtrix env ip name icon_data ext w) = Inr False \<longleftrightarrow>
     (\<exists>response. device_answer env ip name icon_data ext w = Inr response
        \<and> resp_status response \<noteq> 200 \<and> resp_status response \<noteq> 201)
     \<or> (\<exists>e. device_answer env ip name icon_data ext w = Inl e \<and> is_OSError e)"
  by (auto simp: upload_result device_answer_def split: prod.splits sum.splits)

lemma upload_false_diagnostic:
  "fst (upload_icon_to_awtrix env ip name icon_data ext w) = Inr False \<Longrightarrow>
     \<exists>d. fst (snd (upload_icon_to_awtrix env ip name icon_data ext w)) = [d] \<and> is_diagnostic d"
  by (auto simp: upload_result split: prod.splits sum.splits if_splits)

lemma digit_char_value: "d < 10 \<Longrightarrow> int (of_char (digit_char d)) - 48 = int d"
proof -
  assume "d < 10"
  then have "d = 0 \<or> d = 1 \<or> d = 2 \<or> d = 3 \<or> d = 4 \<or> d = 5 \<or> d = 6 \<or> d = 7
    \<or> d = 8 \<or> d = 9"
    by arith
  then show ?thesis
    by (elim disjE) (simp_all add: digit_char_def)
qed

lemma decimal_value_snoc:
  "decimal_value (ds @ [c]) = 10 * decimal_value ds + (int (of_char c) - 48)"
  by (simp add: decimal_value_def)

lemma decimal_str_nat: "decimal_value (str_nat n) = int n"
proof (induction n rule: str_nat.induct)
  case (1 n)
  show ?case
  proof (cases "n < 10")
    case True
    then have "str_nat n = [] @ [digit_char n]"
      by (subst str_nat.simps) simp
    then show ?thesis
      using True by (simp only: decimal_value_snoc digit_char_value) (simp add: decimal_value_def)
  next
    case False
    then have "str_nat n = str_nat (n div 10) @ [digit_char (n mod 10)]"
      by (subst str_nat.simps) simp
    moreover have "decimal_value (str_nat (n div 10)) = int (n div 10)"
      using False "1.IH" by simp
    moreover have "int (of_char (digit_char (n mod 10))) - 48 = int (n mod 10)"
      by (rule digit_char_value) simp
    ultimately show ?thesis
      by (simp only: decimal_value_snoc) (simp add: zdiv_int zmod_int)
  qed
qed

lemma content_length_decimal:
  "decimal_value (str_int (int (length (b :: bytes)))) = int (length b)"
  by (simp add: str_int_def decimal_str_nat)

lemmas eval_upload = upload_result upload_request_url upload_request_body test_env_def device_def

lemma upload_awtrix:
  "upload_icon_to_awtrix test_env ''awtrix.local'' ''my icon!@#'' ''GIF89a'' ''gif'' [] =
     (Inr True, [Uploaded ''my_icon'' ''gif''],
      [upload_request ''0123456789abcdef0123456789abcdef'' ''awtrix.local'' ''my icon!@#'' ''GIF89a'' ''gif''])"
  by (simp add: eval_upload sanitize_my_icon)

lemma upload_quiet:
  "upload_icon_to_awtrix test_env ''quiet.local'' ''a'' ''GIF89a'' ''gif'' [] =
     (Inr False, [UploadFailedStatus 204],
      [upload_request ''0123456789abcdef0123456789abcdef'' ''quiet.local'' ''a'' ''GIF89a'' ''gif''])"
  by (simp add: eval_upload)

lemma upload_broken:
  "upload_icon_to_awtrix test_env ''broken.local'' ''a'' ''GIF89a'' ''gif'' [] =
     (Inr False, [UploadFailed (HTTPError 500)],
      [upload_request ''0123456789abcdef0123456789abcdef'' ''broken.local'' ''a'' ''GIF89a'' ''gif''])"
  by (simp add: eval_upload)

lemma upload_unreachable:
  "upload_icon_to_awtrix test_env ''10.0.0.9'' ''a'' ''GIF89a'' ''gif'' [] =
     (Inr False, [UploadFailed URLError],
      [upload_request ''0123456789abcdef0123456789abcdef'' ''10.0.0.9'' ''a'' ''GIF89a'' ''gif''])"
  by (simp add: eval_upload)

lemma content_length_example:
  "map_of (req_headers (upload_request ''0123456789abcdef0123456789abcdef'' ''awtrix.local''
      ''my icon!@#'' ''GIF89a'' ''gif'')) ''Content-Length'' = Some ''229''"
  by (simp add: upload_request_def Let_def encode_def utf8_char_def CRLF_def str_int_def
      str_nat.simps digit_char_def sanitize_icon_name_def re_sub_char_def
      py_strip_def safe_char_def is_alnum_def in_range_def)

lemma upload_garbled:
  "upload_icon_to_awtrix test_env ''garbled.local'' ''stock-up'' ''GIF89a'' ''gif'' [] =
     (Inl HTTPException, [],
      [upload_request ''0123456789abcdef0123456789abcdef'' ''garbled.local'' ''stock-up'' ''GIF89a'' ''gif''])"
  by (simp add: eval_upload)

lemma upload_line_feed:
  "upload_icon_to_awtrix test_env (''awtrix.local'' @ [CHR 0x0A]) ''stock-up'' ''GIF89a'' ''gif'' [] =
     (Inl HTTPException, [],
      [upload_request ''0123456789abcdef0123456789abcdef'' (''awtrix.local'' @ [CHR 0x0A])
         ''stock-up'' ''GIF89a'' ''gif''])"
  by (simp add: eval_upload)

lemma validate_line_feed: "validate_ip_or_hostname (''awtrix.local'' @ [CHR 0x0A])"
  by (simp add: validator_defs)

text \<open>
  C4. \<^verbatim>\<open>upload_icon_to_awtrix\<close> returns true exactly when the device answers with
  status 200 or 201, and returns false after one diagnostic line on another status and
  on an exception of the \<^verbatim>\<open>OSError\<close> family (lemmas \<open>upload_true_iff\<close>,
  \<open>upload_false_iff\<close>, \<open>upload_false_diagnostic\<close>). It does raise, though: its
  \<^verbatim>\<open>except\<close> clause names \<^verbatim>\<open>URLError\<close> and \<^verbatim>\<open>OSError\<close> only, and an exception
  of \<^verbatim>\<open>http.client\<close> raised by \<^verbatim>\<open>urlopen\<close> escapes (lemma
  \<open>upload_raises_iff\<close>). With a device whose answer is not HTTP, and with an address
  that ends in a line feed, which the address check lets through, the call returns no
  boolean and prints no diagnostic.
\<close>

theorem upload_raises_http_exception:
  "upload_icon_to_awtrix test_env ''garbled.local'' ''stock-up'' ''GIF89a'' ''gif'' [] =
     (Inl HTTPException, [],
      [upload_request ''0123456789abcdef0123456789abcdef'' ''garbled.local'' ''stock-up'' ''GIF89a'' ''gif''])
   \<and> validate_ip_or_hostname ''garbled.local''
   \<and> fst (upload_icon_to_awtrix test_env (''awtrix.local'' @ [CHR 0x0A]) ''stock-up'' ''GIF89a'' ''gif'' [])
       = Inl HTTPException
   \<and> validate_ip_or_hostname (''awtrix.local'' @ [CHR 0x0A])
   \<and> fst (upload_icon_to_awtrix test_env ''broken.local'' ''a'' ''GIF89a'' ''gif'' []) = Inr False
   \<and> fst (upload_icon_to_awtrix test_env ''10.0.0.9'' ''a'' ''GIF89a'' ''gif'' []) = Inr False"
proof -
  have 1: "validate_ip_or_hostname ''garbled.local''"
    by (simp add: validator_defs)
  have 2: "fst (upload_icon_to_awtrix test_env (''awtrix.local'' @ [CHR 0x0A]) ''stock-up'' ''GIF89a'' ''gif'' [])
       = Inl HTTPException"
    unfolding upload_line_feed by simp
  have 3: "fst (upload_icon_to_awtrix test_env ''broken.local'' ''a'' ''GIF89a'' ''gif'' []) = Inr False"
    unfolding upload_broken by simp
  have 4: "fst (upload_icon_to_awtrix test_env ''10.0.0.9'' ''a'' ''GIF89a'' ''gif'' []) = Inr False"
    unfolding upload_unreachable by simp
  from upload_garbled 1 2 validate_line_feed 3 4 show ?thesis
    by (intro conjI)
qed

text \<open>
  C5. The request that \<^verbatim>\<open>upload_icon_to_awtrix\<close> passes to \<^verbatim>\<open>urlopen\<close> is a
  POST to \<^verbatim>\<open>http://<device>/edit\<close>. Its body is the multipart rendering, under the
  boundary announced in the Content-Type header, of exactly one part: field name
  \<^verbatim>\<open>data\<close>, file name \<^verbatim>\<open>/ICONS/<sanitized name>.<format>\<close>, content type
  \<^verbatim>\<open>image/<format>\<close>, content the raw input bytes. The Content-Length header is the
  decimal rendering of the byte length of that body.
\<close>

theorem upload_request_is_one_part_post:
  "get_method (upload_request hex ip name icon_data ext) = ''POST''
   \<and> req_url (upload_request hex ip name icon_data ext) = ''http://'' @ ip @ ''/edit''
   \<and> req_data (upload_request hex ip name icon_data ext) =
       Some (render_multipart (''----WebKitFormBoundary'' @ hex)
         [\<lparr>part_name = ''data'',
           part_filename = ''/ICONS/'' @ sanitize_icon_name name @ ''.'' @ ext,
           part_content_type = ''image/'' @ ext,
           part_content = icon_data\<rparr>])
   \<and> map_of (req_headers (upload_request hex ip name icon_data ext)) ''Content-Type'' =
       Some (''multipart/form-data; boundary='' @ ''----WebKitFormBoundary'' @ hex)
   \<and> map_of (req_headers (upload_request hex ip name icon_data ext)) ''Content-Length'' =
       Some (str_int (int (length (the (req_data (upload_request hex ip name icon_data ext))))))
   \<and> decimal_value (str_int (int (length (the (req_data (upload_request hex ip name icon_data ext))))))
       = int (length (the (req_data (upload_request hex ip name icon_data ext))))
   \<and> device_answer env ip name icon_data ext w =
       fst (urlopen env (upload_request (fst (uuid4_hex env w)) ip name icon_data ext)
              REQUEST_TIMEOUT (snd (uuid4_hex env w)))"
  using upload_request_post [of hex ip name icon_data ext]
    upload_request_url [of hex ip name icon_data ext]
    upload_request_body [of hex ip name icon_data ext]
    content_length_decimal
  by (simp add: upload_request_headers device_answer_def)

theorem upload_request_is_one_part_post_witness:
  "map_of (req_headers (upload_request ''0123456789abcdef0123456789abcdef'' ''awtrix.local''
      ''my icon!@#'' ''GIF89a'' ''gif'')) ''Content-Length'' = Some ''229''
   \<and> length (render_multipart ''----WebKitFormBoundary0123456789abcdef0123456789abcdef''
         [\<lparr>part_name = ''data'', part_filename = ''/ICONS/my_icon.gif'',
           part_content_type = ''image/gif'', part_content = ''GIF89a''\<rparr>]) = 229
   \<and> snd (snd (upload_icon_to_awtrix test_env ''awtrix.local'' ''my icon!@#'' ''GIF89a'' ''gif'' [])) =
       [upload_request ''0123456789abcdef0123456789abcdef'' ''awtrix.local'' ''my icon!@#'' ''GIF89a'' ''gif'']"
proof -
  let ?r = "upload_request ''0123456789abcdef0123456789abcdef'' ''awtrix.local''
      ''my icon!@#'' ''GIF89a'' ''gif''"
  let ?b = "render_multipart ''----WebKitFormBoundary0123456789abcdef0123456789abcdef''
         [\<lparr>part_name = ''data'', part_filename = ''/ICONS/my_icon.gif'',
           part_content_type = ''image/gif'', part_content = ''GIF89a''\<rparr>]"
  note t = upload_request_is_one_part_post [of "''0123456789abcdef0123456789abcdef''"
      "''awtrix.local''" "''my icon!@#''" "''GIF89a''" "''gif''" test_env "[]"]
  have b: "req_data ?r = Some ?b"
    using t by (simp add: sanitize_my_icon)
  have l: "length ?b = 229"
    by (simp add: render_multipart_def render_part_def encode_def utf8_char_def CRLF_def)
  have "map_of (req_headers ?r) ''Content-Length'' =
      Some (str_int (int (length (the (req_data ?r)))))"
    using t by blast
  then have c: "map_of (req_headers ?r) ''Content-Length'' = Some ''229''"
    unfolding b option.sel l by (simp add: str_int_def str_nat.simps digit_char_def)
  have w: "snd (snd (upload_icon_to_awtrix test_env ''awtrix.local'' ''my icon!@#'' ''GIF89a'' ''gif'' [])) = [?r]"
    by (simp add: upload_awtrix)
  from c l w show ?thesis
    by (intro conjI)
qed

section \<open>Properties of the pipeline\<close>

lemma download_error_kinds:
  "download_formats env icon_id exts w = (Inl e, l, w') \<Longrightarrow>
     is_ValueError e \<or> (\<exists>req w0. fst (urlopen env req REQUEST_TIMEOUT w0) = Inl e)"
proof (induction exts arbitrary: w)
  case Nil
  then show ?case by (auto simp: not_found_def)
next
  case (Cons ext exts)
  obtain r w1 where u: "urlopen env (get_request (icon_url icon_id ext)) REQUEST_TIMEOUT w = (r, w1)"
    by (cases "urlopen env (get_request (icon_url icon_id ext)) REQUEST_TIMEOUT w") auto
  show ?case
  proof (cases "download_formats env icon_id (ext # exts) w = download_formats env icon_id exts w1")
    case True
    with Cons show ?thesis by simp
  next
    case False
    with u Cons.prems have "r = Inl e"
      by (auto split: sum.splits if_splits)
    with u have "fst (urlopen env (get_request (icon_url icon_id ext)) REQUEST_TIMEOUT w) = Inl e"
      by simp
    then show ?thesis by blast
  qed
qed

lemma download_log:
  "download_formats env icon_id exts w = (r, l, w') \<Longrightarrow> filter is_Processing l = []"
proof (induction exts arbitrary: w)
  case Nil
  then show ?case by auto
next
  case (Cons ext exts)
  then show ?case
    by (auto split: prod.splits sum.splits if_splits)
qed

lemma upload_log:
  "filter is_Processing (fst (snd (upload_icon_to_awtrix env ip name icon_data ext w))) = []"
  by (simp add: upload_result split: prod.splits sum.splits)

lemma caught_kinds:
  "is_URLError e \<or> is_OSError e \<or> is_ValueError e \<longleftrightarrow> is_OSError e \<or> is_ValueError e"
  by (cases e) simp_all

lemma process_icon_escapes:
  "fst (process_icon env ip name icon_id w) = Inl e \<Longrightarrow> \<not> is_OSError e \<and> \<not> is_ValueError e"
  by (auto simp: process_icon_def caught_kinds split: prod.splits sum.splits if_splits)

lemma process_icon_download_failed:
  "download_icon env icon_id w = (Inl e, l1, w1) \<Longrightarrow>
     process_icon env ip name icon_id w =
       (if is_OSError e \<or> is_ValueError e
        then (Inr False, Processing name icon_id # l1 @ [ErrorMsg e], w1)
        else (Inl e, Processing name icon_id # l1, w1))"
  by (simp add: process_icon_def caught_kinds)

lemma process_icon_uploaded:
  "download_icon env icon_id w = (Inr (icon_data, ext), l1, w1) \<Longrightarrow>
   upload_icon_to_awtrix env ip name icon_data ext w1 = (r, l2, w2) \<Longrightarrow>
     process_icon env ip name icon_id w =
       (case r of
          Inr b \<Rightarrow> (Inr b, Processing name icon_id # l1 @ l2, w2)
        | Inl e \<Rightarrow>
            if is_ValueError e
            then (Inr False, Processing name icon_id # l1 @ l2 @ [ErrorMsg e], w2)
            else (Inl e, Processing name icon_id # l1 @ l2, w2))"
proof -
  assume d: "download_icon env icon_id w = (Inr (icon_data, ext), l1, w1)"
    and u: "upload_icon_to_awtrix env ip name icon_data ext w1 = (r, l2, w2)"
  have "r = Inl e \<Longrightarrow> \<not> is_OSError e" for e
    using upload_raises_iff [of env ip name icon_data ext w1 e] u by simp
  then have "r = Inl e \<Longrightarrow>
      (is_URLError e \<or> is_OSError e \<or> is_ValueError e) = is_ValueError e" for e
    unfolding caught_kinds by simp
  with d u show ?thesis
    by (cases r) (simp_all add: process_icon_def)
qed

lemma process_icon_log:
  "\<exists>l. fst (snd (process_icon env ip name icon_id w)) = Processing name icon_id # l
       \<and> filter is_Processing l = []"
proof -
  obtain r l1 w1 where d: "download_icon env icon_id w = (r, l1, w1)"
    by (cases "download_icon env icon_id w") auto
  then have "download_formats env icon_id [''gif'', ''png''] w = (r, l1, w1)"
    by (simp only: download_icon_def)
  then have l1: "filter is_Processing l1 = []"
    by (rule download_log)
  show ?thesis
  proof (cases r)
    case (Inl e)
    with d l1 show ?thesis
      by (simp add: process_icon_download_failed)
  next
    case (Inr p)
    obtain icon_data ext where p: "p = (icon_data, ext)"
      by (cases p) auto
    obtain r2 l2 w2 where u: "upload_icon_to_awtrix env ip name icon_data ext w1 = (r2, l2, w2)"
      by (cases "upload_icon_to_awtrix env ip name icon_data ext w1") auto
    then have l2: "filter is_Processing l2 = []"
      using upload_log [of env ip name icon_data ext w1] by simp
    from d Inr p have "download_icon env icon_id w = (Inr (icon_data, ext), l1, w1)"
      by simp
    from process_icon_uploaded [OF this u] l1 l2 show ?thesis
      by (cases r2) simp_all
  qed
qed


lemma process_loop_finished:
  "fst (process_loop env ip requests c w) = Inr n \<Longrightarrow>
     process_loop env ip requests c w =
       (Inr (c + length (filter snd (fst (process_all env ip requests w)))),
        snd (process_all env ip requests w))"
proof (induction requests arbitrary: c w)
  case Nil
  show ?case by simp
next
  case (Cons request requests)
  obtain name icon_id where q: "request = (name, icon_id)"
    by (cases request) auto
  obtain r l w' where p: "process_icon env ip name icon_id w = (r, l, w')"
    by (cases "process_icon env ip name icon_id w") auto
  show ?case
  proof (cases r)
    case (Inl e)
    with Cons.prems q p show ?thesis by simp
  next
    case (Inr b)
    with q p have "fst (process_loop env ip (request # requests) c w) =
        fst (process_loop env ip requests (if b then c + 1 else c) w')"
      by (cases "process_loop env ip requests (if b then c + 1 else c) w'") simp
    with Cons.prems
    have "fst (process_loop env ip requests (if b then c + 1 else c) w') = Inr n"
      by simp
    then have "process_loop env ip requests (if b then c + 1 else c) w' =
       (Inr ((if b then c + 1 else c) + length (filter snd (fst (process_all env ip requests w')))),
        snd (process_all env ip requests w'))"
      by (rule Cons.IH)
    with Inr q p show ?thesis
      by (cases "process_all env ip requests w'") simp
  qed
qed


lemma process_loop_caught:
  assumes "\<And>req w0 e. fst (urlopen env req REQUEST_TIMEOUT w0) = Inl e \<Longrightarrow>
      is_OSError e \<or> is_ValueError e"
  shows "\<exists>n. fst (process_loop env ip requests c w) = Inr n"
proof (induction requests arbitrary: c w)
  case Nil
  show ?case by simp
next
  case (Cons request requests)
  obtain name icon_id where q: "request = (name, icon_id)"
    by (cases request) auto
  obtain r l w' where p: "process_icon env ip name icon_id w = (r, l, w')"
    by (cases "process_icon env ip name icon_id w") auto
  have "\<exists>b. r = Inr b"
  proof (cases r)
    case (Inl e)
    with p have e: "fst (process_icon env ip name icon_id w) = Inl e"
      by simp
    obtain r1 l1 w1 where d: "download_icon env icon_id w = (r1, l1, w1)"
      by (cases "download_icon env icon_id w") auto
    have "is_OSError e \<or> is_ValueError e"
    proof (cases r1)
      case bad: (Inl e1)
      with d have "download_icon env icon_id w = (Inl e1, l1, w1)"
        by simp
      from process_icon_download_failed [OF this] e have "e1 = e"
        by (simp split: if_splits)
      with bad d have "download_formats env icon_id [''gif'', ''png''] w = (Inl e, l1, w1)"
        by (simp only: download_icon_def)
      then have "is_ValueError e \<or> (\<exists>req w0. fst (urlopen env req REQUEST_TIMEOUT w0) = Inl e)"
        by (rule download_error_kinds)
      then show ?thesis
        by (auto dest: assms)
    next
      case good: (Inr x)
      obtain icon_data ext where x: "x = (icon_data, ext)"
        by (cases x) auto
      obtain r2 l2 w2 where u: "upload_icon_to_awtrix env ip name icon_data ext w1 = (r2, l2, w2)"
        by (cases "upload_icon_to_awtrix env ip name icon_data ext w1") auto
      from d good x have "download_icon env icon_id w = (Inr (icon_data, ext), l1, w1)"
        by simp
      from process_icon_uploaded [OF this u] e have "r2 = Inl e"
        by (cases r2) (simp_all split: if_splits)
      with u have "fst (upload_icon_to_awtrix env ip name icon_data ext w1) = Inl e"
        by simp
      then have "device_answer env ip name icon_data ext w1 = Inl e"
        using upload_raises_iff [of env ip name icon_data ext w1 e] by simp
      then show ?thesis
        unfolding device_answer_def by (rule assms)
    qed
    then show ?thesis
      using process_icon_escapes [OF e] by blast
  next
    case (Inr b)
    then show ?thesis by blast
  qed
  then obtain b where "r = Inr b" by blast
  with q p have "fst (process_loop env ip (request # requests) c w) =
      fst (process_loop env ip requests (if b then c + 1 else c) w')"
    by (cases "process_loop env ip requests (if b then c + 1 else c) w'") simp
  then show ?case
    using Cons.IH [of "if b then c + 1 else c" w'] by simp
qed

lemma process_all_names:
  "map fst (fst (process_all env ip requests w)) = map fst requests"
proof (induction requests arbitrary: w)
  case Nil
  show ?case by simp
next
  case (Cons request requests)
  obtain name icon_id where q: "request = (name, icon_id)"
    by (cases request) auto
  obtain r l w' where p: "process_icon env ip name icon_id w = (r, l, w')"
    by (cases "process_icon env ip name icon_id w") auto
  show ?case
    unfolding q using p Cons.IH [of w']
    by (cases "process_all env ip requests w'") auto
qed

lemma process_all_order:
  "filter is_Processing (fst (snd (process_all env ip requests w))) =
     map (\<lambda>(name, icon_id). Processing name icon_id) requests"
proof (induction requests arbitrary: w)
  case Nil
  show ?case by simp
next
  case (Cons request requests)
  obtain name icon_id where q: "request = (name, icon_id)"
    by (cases request) auto
  obtain r l w' where p: "process_icon env ip name icon_id w = (r, l, w')"
    by (cases "process_icon env ip name icon_id w") auto
  obtain l0 where "l = Processing name icon_id # l0" "filter is_Processing l0 = []"
    using process_icon_log [of env ip name icon_id w] p by auto
  then show ?case
    unfolding q using p Cons.IH [of w']
    by (cases "process_all env ip requests w'") auto
qed

lemmas eval_process = process_icon_def download_icon_def eval_defs eval_upload

lemma three_requests:
  "fst (process_all test_env ''awtrix.local'' [(''stock-up'', 1), (''missing'', 2), (''stock-down'', 3)] [])
     = [(''stock-up'', True), (''missing'', False), (''stock-down'', True)]"
  by (simp add: eval_process)

lemma three_requests_tally:
  "fst (process_loop test_env ''awtrix.local''
          [(''stock-up'', 1), (''missing'', 2), (''stock-down'', 3)] 0 []) = Inr 2"
  by (simp add: eval_process)

lemma three_requests_cut_short:
  "process_loop test_env ''awtrix.local''
      [(''stock-up'', 1), (''cut-short'', 6), (''stock-down'', 3)] 0 [] =
     (Inl HTTPException,
      [Processing ''stock-up'' 1, Downloaded 1 ''gif'', Uploaded ''stock-up'' ''gif'',
       Processing ''cut-short'' 6],
      [get_request (icon_url 1 ''gif''),
       upload_request ''0123456789abcdef0123456789abcdef'' ''awtrix.local'' ''stock-up''
         ''GIF89a-1'' ''gif'',
       get_request (icon_url 6 ''gif'')])"
  by (simp add: eval_process sanitize_icon_name_def re_sub_char_def
      py_strip_def safe_char_def is_alnum_def in_range_def)

lemma three_requests_cut_short_wanted:
  "fst (process_all test_env ''awtrix.local''
          [(''stock-up'', 1), (''cut-short'', 6), (''stock-down'', 3)] [])
     = [(''stock-up'', True), (''cut-short'', False), (''stock-down'', True)]"
  by (simp add: eval_process)

text \<open>
  C6. The loop of \<^verbatim>\<open>main\<close> processes the requests in their order, and as long as
  it runs its effects are those of processing each request in turn (lemmas
  \<open>process_loop_finished\<close>, \<open>process_all_names\<close>, \<open>process_all_order\<close>); a failure
  that is a \<^verbatim>\<open>URLError\<close>, an \<^verbatim>\<open>OSError\<close> or a \<^verbatim>\<open>ValueError\<close> is recorded and
  the next request is processed (lemma \<open>process_loop_caught\<close>): of three requests of which
  the second is not in the catalogue, two are uploaded. A failure of another kind does abort
  the batch: \<^verbatim>\<open>process_icon\<close> catches those three kinds only. When the download of
  the second of three requests is cut short, the exception escapes the loop; the third
  request is never processed, although it would have succeeded, and no tally is made.
\<close>

theorem batch_aborted_by_http_exception:
  "process_loop test_env ''awtrix.local''
      [(''stock-up'', 1), (''cut-short'', 6), (''stock-down'', 3)] 0 [] =
     (Inl HTTPException,
      [Processing ''stock-up'' 1, Downloaded 1 ''gif'', Uploaded ''stock-up'' ''gif'',
       Processing ''cut-short'' 6],
      [get_request (icon_url 1 ''gif''),
       upload_request ''0123456789abcdef0123456789abcdef'' ''awtrix.local'' ''stock-up''
         ''GIF89a-1'' ''gif'',
       get_request (icon_url 6 ''gif'')])
   \<and> fst (process_all test_env ''awtrix.local''
          [(''stock-up'', 1), (''cut-short'', 6), (''stock-down'', 3)] [])
       = [(''stock-up'', True), (''cut-short'', False), (''stock-down'', True)]
   \<and> fst (process_loop test_env ''awtrix.local''
          [(''stock-up'', 1), (''missing'', 2), (''stock-down'', 3)] 0 []) = Inr 2"
  using three_requests_cut_short three_requests_cut_short_wanted three_requests_tally
  by (intro conjI)

section \<open>Properties of the command line\<close>









lemma resolve_given:
  "arg_device_ip a = Some ip \<Longrightarrow> ip \<noteq> [] \<Longrightarrow> resolve_device_ip env a w = (Inr ip, [], w)"
  by (simp add: resolve_device_ip_def)







subsection \<open>Runs of the command line\<close>









end
